theory Spec2Isabelle
  imports Main
begin

section \<open>C strings and undefined behaviour\<close>

text \<open>
  The template is a NUL-terminated \<^verbatim>\<open>const char *\<close>. A template \<open>s\<close> stands for the char
  array \<open>s @ [NUL]\<close>: reading index \<open>length s\<close> yields the terminator, reading any index
  beyond it leaves the array. Every such read, every dereference of a null pointer and
  every \<^verbatim>\<open>va_arg\<close> that does not match the argument list is undefined behaviour in C; the
  model reports it as a \<open>fault\<close> instead of continuing.
\<close>

datatype fault = NullDeref | ReadPastEnd | VaArgExhausted | VaArgMismatch

definition NUL :: char where
  "NUL = CHR 0x00"

definition peek :: "string \<Rightarrow> nat \<Rightarrow> char option" where
  "peek s i = (if i < length s then Some (s ! i)
               else if i = length s then Some NUL
               else None)"

text \<open>
  \<^verbatim>\<open>strchr(cs, c) != NULL\<close>: the terminator of \<open>cs\<close> is part of the searched string, so the
  test also succeeds for \<open>c = NUL\<close>.
\<close>

definition strchr :: "string \<Rightarrow> char \<Rightarrow> bool" where
  "strchr cs c = (c = NUL \<or> c \<in> set cs)"

text \<open>\<^verbatim>\<open>isdigit\<close> in the C locale.\<close>

definition isdigit :: "char \<Rightarrow> bool" where
  "isdigit c = (c \<in> set ''0123456789'')"

text \<open>The C string held by a char array: its bytes up to the first NUL.\<close>

definition cstr :: "string \<Rightarrow> string" where
  "cstr bs = takeWhile (\<lambda>c. c \<noteq> NUL) bs"

section \<open>The marker list (display.h, lines 115-167)\<close>

datatype var_type =
    TYPE_FLOAT | TYPE_DOUBLE | TYPE_LONG_DOUBLE
  | TYPE_POINTER | TYPE_STRING
  | TYPE_POINTER_SIGNED_INT8 | TYPE_POINTER_SHORT | TYPE_POINTER_INT | TYPE_POINTER_LONG
  | TYPE_POINTER_LONG_LONG | TYPE_POINTER_INTMAX_T | TYPE_POINTER_SSIZE_T
  | TYPE_POINTER_PTRDIFF_T
  | TYPE_SIGNED_INT8 | TYPE_SHORT | TYPE_INT | TYPE_LONG | TYPE_LONG_LONG | TYPE_INTMAX_T
  | TYPE_SSIZE_T | TYPE_PTRDIFF_T
  | TYPE_UINT8 | TYPE_USHORT | TYPE_UINT | TYPE_ULONG | TYPE_ULONG_LONG | TYPE_UINTMAX_T
  | TYPE_SIZE_T
  | TYPE_NONE

record format_spec_t =
  substr :: string
  type :: var_type

text \<open>
  \<^verbatim>\<open>format_specs_array_t\<close> (a heap array and its count) is a list; allocation is taken to
  succeed, and \<^verbatim>\<open>format_specs_array_t_free\<close> has no observable effect.
\<close>

type_synonym format_specs_array_t = "format_spec_t list"

section \<open>The scanner: find_format_specifiers (display.h, lines 176-348)\<close>

text \<open>Lines 193-196: \<^verbatim>\<open>while (strchr("-+ #0", *p)) p++;\<close>\<close>

function skip_flags :: "string \<Rightarrow> nat \<Rightarrow> fault + nat" where
  "skip_flags s p =
     (case peek s p of
        None \<Rightarrow> Inl ReadPastEnd
      | Some c \<Rightarrow> if strchr ''-+ #0'' c then skip_flags s (p + 1) else Inr p)"
  by pat_completeness auto
termination
  by (relation "measure (\<lambda>(s, p). Suc (length s) - p)")
     (auto simp: peek_def split: if_splits)

declare skip_flags.simps [simp del]

text \<open>Lines 202-204 and 213-215: \<^verbatim>\<open>while (isdigit(*p)) p++;\<close>\<close>

function skip_digits :: "string \<Rightarrow> nat \<Rightarrow> fault + nat" where
  "skip_digits s p =
     (case peek s p of
        None \<Rightarrow> Inl ReadPastEnd
      | Some c \<Rightarrow> if isdigit c then skip_digits s (p + 1) else Inr p)"
  by pat_completeness auto
termination
  by (relation "measure (\<lambda>(s, p). Suc (length s) - p)")
     (auto simp: peek_def split: if_splits)

declare skip_digits.simps [simp del]

text \<open>Lines 198-205: the width, a single \<open>*\<close> or a run of digits.\<close>

definition scan_width :: "string \<Rightarrow> nat \<Rightarrow> fault + nat" where
  "scan_width s p =
     (case peek s p of
        None \<Rightarrow> Inl ReadPastEnd
      | Some c \<Rightarrow> if c = CHR ''*'' then Inr (p + 1) else skip_digits s p)"

text \<open>Lines 207-217: the precision, a \<open>.\<close> followed by a single \<open>*\<close> or a run of digits.\<close>

definition scan_precision :: "string \<Rightarrow> nat \<Rightarrow> fault + nat" where
  "scan_precision s p =
     (case peek s p of
        None \<Rightarrow> Inl ReadPastEnd
      | Some c \<Rightarrow>
          if c = CHR ''.'' then
            (case peek s (p + 1) of
               None \<Rightarrow> Inl ReadPastEnd
             | Some c' \<Rightarrow> if c' = CHR ''*'' then Inr (p + 2) else skip_digits s (p + 1))
          else Inr p)"

text \<open>
  Lines 219-229: the length modifier. The result is the C string in \<^verbatim>\<open>char length[3]\<close> and
  the new position.
\<close>

definition scan_length :: "string \<Rightarrow> nat \<Rightarrow> fault + (string \<times> nat)" where
  "scan_length s p =
     (case peek s p of
        None \<Rightarrow> Inl ReadPastEnd
      | Some c0 \<Rightarrow>
          if strchr ''hljztL'' c0 then
            (case peek s (p + 1) of
               None \<Rightarrow> Inl ReadPastEnd
             | Some c1 \<Rightarrow>
                 if (c1 = CHR ''h'' \<or> c1 = CHR ''l'') \<and> (c0 = CHR ''h'' \<or> c0 = CHR ''l'')
                 then Inr (cstr [c0, c1], p + 2)
                 else Inr (cstr [c0], p + 1))
          else Inr ([], p))"

text \<open>Lines 250-326: the type of a marker; \<open>None\<close> is the initial \<^verbatim>\<open>-1\<close>.\<close>

definition get_type :: "string \<Rightarrow> char \<Rightarrow> var_type option" where
  "get_type len specifier =
     (if specifier = CHR ''%'' then Some TYPE_NONE
      else if specifier = CHR ''p'' then Some TYPE_POINTER
      else if specifier = CHR ''c'' then Some TYPE_INT
      else if specifier = CHR ''s'' then Some TYPE_STRING
      else if specifier = CHR ''n'' then
        Some (if len = ''hh'' then TYPE_POINTER_SIGNED_INT8
              else if len = ''h'' then TYPE_POINTER_SHORT
              else if len = [] then TYPE_POINTER_INT
              else if len = ''l'' then TYPE_POINTER_LONG
              else if len = ''ll'' then TYPE_POINTER_LONG_LONG
              else if len = ''j'' then TYPE_POINTER_INTMAX_T
              else if len = ''z'' then TYPE_POINTER_SSIZE_T
              else if len = ''t'' then TYPE_POINTER_PTRDIFF_T
              else TYPE_POINTER_INT)
      else if strchr ''di'' specifier then
        Some (if len = ''hh'' then TYPE_SIGNED_INT8
              else if len = ''h'' then TYPE_SHORT
              else if len = [] then TYPE_INT
              else if len = ''l'' then TYPE_LONG
              else if len = ''ll'' then TYPE_LONG_LONG
              else if len = ''j'' then TYPE_INTMAX_T
              else if len = ''z'' then TYPE_SSIZE_T
              else if len = ''t'' then TYPE_PTRDIFF_T
              else TYPE_INT)
      else if strchr ''ouxX'' specifier then
        Some (if len = ''hh'' then TYPE_UINT8
              else if len = ''h'' then TYPE_USHORT
              else if len = [] then TYPE_UINT
              else if len = ''l'' then TYPE_ULONG
              else if len = ''ll'' then TYPE_ULONG_LONG
              else if len = ''j'' then TYPE_UINTMAX_T
              else if len = ''z'' then TYPE_SIZE_T
              else if len = ''t'' then TYPE_PTRDIFF_T
              else TYPE_UINT)
      else if strchr ''eEfFgGaA'' specifier then
        Some (if len = ''L'' then TYPE_LONG_DOUBLE else TYPE_DOUBLE)
      else None)"

text \<open>
  Lines 189-341: one marker, from its \<open>%\<close> at \<open>start\<close>. The result is the position at which
  the scan goes on and the entry appended to the array, if any. An unrecognised conversion
  letter leaves the position where the letter was looked for (the \<^verbatim>\<open>continue\<close> of line 237).
\<close>

definition scan_marker :: "string \<Rightarrow> nat \<Rightarrow> fault + (nat \<times> format_spec_t option)" where
  "scan_marker s start =
     (case skip_flags s (start + 1) of Inl e \<Rightarrow> Inl e | Inr p1 \<Rightarrow>
      case scan_width s p1 of Inl e \<Rightarrow> Inl e | Inr p2 \<Rightarrow>
      case scan_precision s p2 of Inl e \<Rightarrow> Inl e | Inr p3 \<Rightarrow>
      case scan_length s p3 of Inl e \<Rightarrow> Inl e | Inr (len, p4) \<Rightarrow>
      case peek s p4 of None \<Rightarrow> Inl ReadPastEnd | Some specifier \<Rightarrow>
        if strchr ''diouxXeEfFgGaAcspn%'' specifier then
          (let p5 = p4 + 1;
               sub = cstr (take (p5 - start) (drop start (s @ [NUL])))
           in case get_type len specifier of
                None \<Rightarrow> Inr (p5, None)
              | Some t \<Rightarrow> Inr (p5, Some \<lparr>substr = sub, type = t\<rparr>))
        else Inr (p4, None))"

lemma skip_flags_mono: "skip_flags s p = Inr q \<Longrightarrow> p \<le> q"
proof (induction s p rule: skip_flags.induct)
  case (1 s p)
  then show ?case
    by (subst (asm) (2) skip_flags.simps) (auto split: option.splits if_splits)
qed

lemma skip_digits_mono: "skip_digits s p = Inr q \<Longrightarrow> p \<le> q"
proof (induction s p rule: skip_digits.induct)
  case (1 s p)
  then show ?case
    by (subst (asm) (2) skip_digits.simps) (auto split: option.splits if_splits)
qed

lemma scan_width_mono: "scan_width s p = Inr q \<Longrightarrow> p \<le> q"
  by (auto simp: scan_width_def split: option.splits if_splits dest: skip_digits_mono)

lemma scan_precision_mono: "scan_precision s p = Inr q \<Longrightarrow> p \<le> q"
  by (auto simp: scan_precision_def split: option.splits if_splits dest: skip_digits_mono)

lemma scan_length_mono: "scan_length s p = Inr (len, q) \<Longrightarrow> p \<le> q"
  by (auto simp: scan_length_def split: option.splits if_splits)

lemma scan_marker_advances: "scan_marker s start = Inr (q, e) \<Longrightarrow> start < q"
  unfolding scan_marker_def
  by (auto simp: Let_def split: sum.splits option.splits if_splits prod.splits
      dest!: skip_flags_mono scan_width_mono scan_precision_mono scan_length_mono)

text \<open>Lines 181-345: the loop over the template.\<close>

function scan_loop :: "string \<Rightarrow> nat \<Rightarrow> format_specs_array_t \<Rightarrow> fault + format_specs_array_t" where
  "scan_loop s p specs =
     (case peek s p of
        None \<Rightarrow> Inl ReadPastEnd
      | Some c \<Rightarrow>
          if c = NUL then Inr specs
          else if c = CHR ''%'' then
            (case peek s (p + 1) of
               None \<Rightarrow> Inl ReadPastEnd
             | Some c1 \<Rightarrow>
                 if c1 = CHR ''%'' then scan_loop s (p + 2) specs
                 else
                   (case scan_marker s p of
                      Inl e \<Rightarrow> Inl e
                    | Inr (p', None) \<Rightarrow> scan_loop s p' specs
                    | Inr (p', Some e) \<Rightarrow> scan_loop s p' (specs @ [e])))
          else scan_loop s (p + 1) specs)"
  by pat_completeness auto
termination
  by (relation "measure (\<lambda>(s, p, specs). Suc (length s) - p)")
     (auto simp: peek_def split: if_splits dest: scan_marker_advances)

declare scan_loop.simps [simp del]

text \<open>The pointer \<^verbatim>\<open>format\<close> may be null: \<open>None\<close>. The scanner dereferences it unchecked.\<close>

definition find_format_specifiers :: "string option \<Rightarrow> fault + format_specs_array_t" where
  "find_format_specifiers format =
     (case format of
        None \<Rightarrow> Inl NullDeref
      | Some s \<Rightarrow> scan_loop s 0 [])"

section \<open>Arguments, opaque display values and sinks\<close>

text \<open>
  The C types named by the \<^verbatim>\<open>va_arg\<close> calls of the drivers, and argument values. A \<^verbatim>\<open>char *\<close>
  argument carries the string it points to; a floating-point argument is kept as its bit
  pattern; any other pointer is an address, \<open>None\<close> for the null pointer.
\<close>

datatype ctype =
    C_signed_char | C_short | C_int | C_long | C_long_long | C_intmax_t | C_ssize_t
  | C_ptrdiff_t
  | C_unsigned_int | C_unsigned_long | C_unsigned_long_long | C_uintmax_t | C_size_t
  | C_double | C_long_double
  | C_void_ptr | C_char_ptr
  | C_ptr ctype

datatype cval = VInt int | VFloat nat | VStr string | VPtr "nat option"

text \<open>
  \<^verbatim>\<open>display_t\<close> (lines 60-66). A function pointer is \<open>None\<close> when null. A rendering function
  is given the \<^verbatim>\<open>self\<close> address (and the stream, or the capacity of the buffer) and yields the
  text it wrote to its sink together with its \<^verbatim>\<open>int\<close> result.
\<close>

record display_t =
  display_fn :: "(nat \<Rightarrow> string \<times> int) option"
  fdisplay_fn :: "(nat \<Rightarrow> nat \<Rightarrow> string \<times> int) option"
  sndisplay_fn :: "(nat \<Rightarrow> nat \<Rightarrow> string \<times> int) option"
  self :: "nat option"

text \<open>
  One slot of the \<^verbatim>\<open>va_list\<close>: a native argument with the type it was passed at, or a
  \<^verbatim>\<open>display_t *\<close> (\<open>None\<close> when null).
\<close>

datatype va_slot = Arg ctype cval | ArgDisplay "display_t option"

text \<open>
  \<^verbatim>\<open>va_arg(args, T)\<close>: the next slot, which must have been passed at type \<open>T\<close>; the rest of
  the list is the advanced cursor.
\<close>

fun va_arg :: "ctype \<Rightarrow> va_slot list \<Rightarrow> fault + (cval \<times> va_slot list)" where
  "va_arg T [] = Inl VaArgExhausted"
| "va_arg T (Arg U v # rest) = (if U = T then Inr (v, rest) else Inl VaArgMismatch)"
| "va_arg T (ArgDisplay d # rest) = Inl VaArgMismatch"

text \<open>\<^verbatim>\<open>va_arg(args, display_t *)\<close>\<close>

fun va_arg_display :: "va_slot list \<Rightarrow> fault + (display_t option \<times> va_slot list)" where
  "va_arg_display [] = Inl VaArgExhausted"
| "va_arg_display (ArgDisplay d # rest) = Inr (d, rest)"
| "va_arg_display (Arg U v # rest) = Inl VaArgMismatch"

text \<open>
  What a sink receives, in order: a character (\<^verbatim>\<open>putchar\<close>, \<^verbatim>\<open>putc\<close>), a native formatting
  call with its format string and its single argument (\<^verbatim>\<open>printf\<close>, \<^verbatim>\<open>fprintf\<close>), or the text
  written by a rendering function.
\<close>

datatype sink_item = Chr char | Fmt string cval | Txt string

text \<open>
  The text of a sink, given the native formatter \<open>native\<close> of the C library
  (\<open>native f v\<close> is what \<^verbatim>\<open>printf(f, v)\<close> writes).
\<close>

fun item_text :: "(string \<Rightarrow> cval \<Rightarrow> string) \<Rightarrow> sink_item \<Rightarrow> string" where
  "item_text native (Chr c) = [c]"
| "item_text native (Fmt f v) = native f v"
| "item_text native (Txt t) = t"

definition sink_text :: "(string \<Rightarrow> cval \<Rightarrow> string) \<Rightarrow> sink_item list \<Rightarrow> string" where
  "sink_text native items = concat (map (item_text native) items)"

text \<open>
  The local variables of a driver (\<open>pos\<close> is the pointer \<^verbatim>\<open>p\<close> as an index into the template)
  and its effects: the sink, and the assignments made through \<^verbatim>\<open>%n\<close> pointers, each with
  the pointee type, the address and the value left in the pointee. The counters are
  \<^verbatim>\<open>int\<close>s that count markers of the template, so they stay far below \<open>2^31\<close>.
\<close>

record driver_state =
  pos :: nat
  args :: "va_slot list"
  spec_idx :: nat
  spec_count :: int
  struct_count :: int
  sink :: "sink_item list"
  stores :: "(ctype \<times> nat \<times> int) list"

definition init_state :: "va_slot list \<Rightarrow> driver_state" where
  "init_state as = \<lparr>pos = 0, args = as, spec_idx = 0, spec_count = 0, struct_count = 0,
                     sink = [], stores = []\<rparr>"

text \<open>
  The conversion of an \<^verbatim>\<open>int\<close> to a signed type of \<open>w\<close> bits: the value is kept when it fits
  and otherwise wraps modulo \<open>2^w\<close> (the C standard leaves the result to the implementation;
  this is the result on two's complement implementations).
\<close>

definition wrap_signed :: "nat \<Rightarrow> int \<Rightarrow> int" where
  "wrap_signed w n = (n + 2 ^ (w - 1)) mod 2 ^ w - 2 ^ (w - 1)"

text \<open>
  The value that the assignment of an \<^verbatim>\<open>int\<close> leaves in an object of type \<open>T\<close>. Of the pointee
  types of lines 421-444 only \<^verbatim>\<open>signed char\<close> (8 bits) and \<^verbatim>\<open>short\<close> (16 bits) are narrower than
  \<^verbatim>\<open>int\<close>; \<^verbatim>\<open>int\<close>, \<^verbatim>\<open>long\<close>, \<^verbatim>\<open>long long\<close>, \<^verbatim>\<open>intmax_t\<close>, \<^verbatim>\<open>ssize_t\<close> and \<^verbatim>\<open>ptrdiff_t\<close> hold every
  \<^verbatim>\<open>int\<close>.
\<close>

fun assigned_int :: "ctype \<Rightarrow> int \<Rightarrow> int" where
  "assigned_int C_signed_char n = wrap_signed 8 n"
| "assigned_int C_short n = wrap_signed 16 n"
| "assigned_int T n = n"

text \<open>\<^verbatim>\<open>*va_arg(args, T *) = spec_count + struct_count;\<close>\<close>

definition store_count :: "ctype \<Rightarrow> driver_state \<Rightarrow> fault + driver_state" where
  "store_count T st =
     (case va_arg (C_ptr T) (args st) of
        Inl e \<Rightarrow> Inl e
      | Inr (v, rest) \<Rightarrow>
          (case v of
             VPtr (Some a) \<Rightarrow>
               Inr (st\<lparr>args := rest,
                       stores := stores st @
                         [(T, a, assigned_int T (spec_count st + struct_count st))]\<rparr>)
           | VPtr None \<Rightarrow> Inl NullDeref
           | _ \<Rightarrow> Inl VaArgMismatch))"

section \<open>The byte-sink driver: display_vprint (display.h, lines 350-493)\<close>

text \<open>\<^verbatim>\<open>printf(substr, va_arg(args, T));\<close>\<close>

definition printf_arg :: "string \<Rightarrow> ctype \<Rightarrow> driver_state \<Rightarrow> fault + driver_state" where
  "printf_arg f T st =
     (case va_arg T (args st) of
        Inl e \<Rightarrow> Inl e
      | Inr (v, rest) \<Rightarrow> Inr (st\<lparr>args := rest, sink := sink st @ [Fmt f v]\<rparr>))"

text \<open>Lines 362-459: the \<^verbatim>\<open>switch\<close> on the type of the current entry.\<close>

definition vprint_field :: "format_spec_t \<Rightarrow> driver_state \<Rightarrow> fault + driver_state" where
  "vprint_field spec st =
     (case type spec of
        TYPE_INT \<Rightarrow> printf_arg (substr spec) C_int st
      | TYPE_SIGNED_INT8 \<Rightarrow> printf_arg (substr spec) C_int st
      | TYPE_SHORT \<Rightarrow> printf_arg (substr spec) C_int st
      | TYPE_LONG \<Rightarrow> printf_arg (substr spec) C_long st
      | TYPE_LONG_LONG \<Rightarrow> printf_arg (substr spec) C_long_long st
      | TYPE_INTMAX_T \<Rightarrow> printf_arg (substr spec) C_intmax_t st
      | TYPE_SSIZE_T \<Rightarrow> printf_arg (substr spec) C_ssize_t st
      | TYPE_PTRDIFF_T \<Rightarrow> printf_arg (substr spec) C_ptrdiff_t st
      | TYPE_UINT \<Rightarrow> printf_arg (substr spec) C_unsigned_int st
      | TYPE_UINT8 \<Rightarrow> printf_arg (substr spec) C_unsigned_int st
      | TYPE_USHORT \<Rightarrow> printf_arg (substr spec) C_unsigned_int st
      | TYPE_ULONG \<Rightarrow> printf_arg (substr spec) C_unsigned_long st
      | TYPE_ULONG_LONG \<Rightarrow> printf_arg (substr spec) C_unsigned_long_long st
      | TYPE_UINTMAX_T \<Rightarrow> printf_arg (substr spec) C_uintmax_t st
      | TYPE_SIZE_T \<Rightarrow> printf_arg (substr spec) C_size_t st
      | TYPE_POINTER \<Rightarrow> printf_arg (substr spec) C_void_ptr st
      | TYPE_STRING \<Rightarrow> printf_arg (substr spec) C_char_ptr st
      | TYPE_POINTER_INT \<Rightarrow> store_count C_int st
      | TYPE_POINTER_SIGNED_INT8 \<Rightarrow> store_count C_signed_char st
      | TYPE_POINTER_SHORT \<Rightarrow> store_count C_short st
      | TYPE_POINTER_LONG \<Rightarrow> store_count C_long st
      | TYPE_POINTER_LONG_LONG \<Rightarrow> store_count C_long_long st
      | TYPE_POINTER_INTMAX_T \<Rightarrow> store_count C_intmax_t st
      | TYPE_POINTER_SSIZE_T \<Rightarrow> store_count C_ssize_t st
      | TYPE_POINTER_PTRDIFF_T \<Rightarrow> store_count C_ptrdiff_t st
      | TYPE_FLOAT \<Rightarrow> printf_arg (substr spec) C_double st
      | TYPE_DOUBLE \<Rightarrow> printf_arg (substr spec) C_double st
      | TYPE_LONG_DOUBLE \<Rightarrow> printf_arg (substr spec) C_long_double st
      | TYPE_NONE \<Rightarrow> Inr st)"

text \<open>
  Lines 471-483: the opaque delimiter. The text a rendering function wrote is in the sink
  whatever the function returns.
\<close>

definition vprint_display :: "driver_state \<Rightarrow> fault + driver_state" where
  "vprint_display st =
     (case va_arg_display (args st) of
        Inl e \<Rightarrow> Inl e
      | Inr (d, rest) \<Rightarrow>
          (let st1 = st\<lparr>args := rest\<rparr> in
           case d of
             None \<Rightarrow> Inr (st1\<lparr>pos := pos st1 + 2\<rparr>)
           | Some dv \<Rightarrow>
               (case display_fn dv of
                  None \<Rightarrow> Inr (st1\<lparr>pos := pos st1 + 2\<rparr>)
                | Some f \<Rightarrow>
                    (case self dv of
                       None \<Rightarrow> Inr (st1\<lparr>pos := pos st1 + 2\<rparr>)
                     | Some a \<Rightarrow>
                         (case f a of
                            (text, rc) \<Rightarrow>
                              (let st2 = st1\<lparr>sink := sink st1 @ [Txt text]\<rparr> in
                               if rc = - 1 then Inr (st2\<lparr>pos := pos st2 + 2\<rparr>)
                               else Inr (st2\<lparr>pos := pos st2 + 2,
                                              struct_count := struct_count st2 + 1\<rparr>)))))))"

text \<open>Lines 360-487: one iteration of the loop, entered with \<^verbatim>\<open>*p\<close> not NUL.\<close>

definition vprint_body :: "string \<Rightarrow> format_specs_array_t \<Rightarrow> driver_state \<Rightarrow> fault + driver_state" where
  "vprint_body format specs st =
     (case peek format (pos st) of
        None \<Rightarrow> Inl ReadPastEnd
      | Some c \<Rightarrow>
          if c = CHR ''%'' then
            (case peek format (pos st + 1) of
               None \<Rightarrow> Inl ReadPastEnd
             | Some c1 \<Rightarrow>
                 if c1 \<noteq> CHR ''%'' then
                   (if spec_idx st < length specs then
                      (case vprint_field (specs ! spec_idx st) st of
                         Inl e \<Rightarrow> Inl e
                       | Inr st1 \<Rightarrow>
                           Inr (st1\<lparr>pos := pos st1 + length (substr (specs ! spec_idx st)),
                                    spec_idx := spec_idx st1 + 1,
                                    spec_count := spec_count st1 + 1\<rparr>))
                    else Inr (st\<lparr>sink := sink st @ [Chr c], pos := pos st + 1\<rparr>))
                 else Inr (st\<lparr>sink := sink st @ [Chr CHR ''%''], pos := pos st + 2\<rparr>))
          else if c = CHR ''{'' then
            (case peek format (pos st + 1) of
               None \<Rightarrow> Inl ReadPastEnd
             | Some c1 \<Rightarrow>
                 if c1 = CHR ''}'' then vprint_display st
                 else Inr (st\<lparr>sink := sink st @ [Chr c], pos := pos st + 1\<rparr>))
          else Inr (st\<lparr>sink := sink st @ [Chr c], pos := pos st + 1\<rparr>))"

lemma printf_arg_keeps:
  "printf_arg f T st = Inr st1 \<Longrightarrow> pos st1 = pos st \<and> spec_idx st1 = spec_idx st"
  by (auto simp: printf_arg_def split: sum.splits)

lemma store_count_keeps:
  "store_count T st = Inr st1 \<Longrightarrow> pos st1 = pos st \<and> spec_idx st1 = spec_idx st"
  by (auto simp: store_count_def split: sum.splits cval.splits option.splits)

lemma vprint_field_keeps:
  "vprint_field spec st = Inr st1 \<Longrightarrow> pos st1 = pos st \<and> spec_idx st1 = spec_idx st"
  unfolding vprint_field_def
  by (cases "type spec") (simp_all add: printf_arg_keeps store_count_keeps)

lemma vprint_display_advances: "vprint_display st = Inr st1 \<Longrightarrow> pos st1 = pos st + 2"
  by (auto simp: vprint_display_def Let_def
      split: sum.splits option.splits prod.splits if_splits)

text \<open>
  Every iteration moves the position forward or, when the entry's substring is empty,
  uses up an entry; so the loop ends on every marker list.
\<close>

lemma vprint_body_progress:
  assumes "vprint_body format specs st = Inr st1"
  shows "pos st < pos st1 \<or>
         (pos st1 = pos st \<and> spec_idx st < length specs \<and> spec_idx st1 = spec_idx st + 1)"
proof (cases "peek format (pos st) = Some CHR ''%'' \<and> spec_idx st < length specs
              \<and> (\<exists>c1. peek format (pos st + 1) = Some c1 \<and> c1 \<noteq> CHR ''%'')")
  case True
  with assms obtain st0 where f: "vprint_field (specs ! spec_idx st) st = Inr st0"
    and s: "st1 = st0\<lparr>pos := pos st0 + length (substr (specs ! spec_idx st)),
                      spec_idx := spec_idx st0 + 1, spec_count := spec_count st0 + 1\<rparr>"
    by (auto simp: vprint_body_def split: sum.splits)
  from vprint_field_keeps [OF f] s True show ?thesis by auto
next
  case False
  with assms show ?thesis
    by (auto simp: vprint_body_def split: option.splits if_splits
        dest: vprint_display_advances)
qed

text \<open>Lines 359-488: the loop.\<close>

function vprint_loop :: "string \<Rightarrow> format_specs_array_t \<Rightarrow> driver_state \<Rightarrow> fault + driver_state" where
  "vprint_loop format specs st =
     (case peek format (pos st) of
        None \<Rightarrow> Inl ReadPastEnd
      | Some c \<Rightarrow>
          if c = NUL then Inr st
          else (case vprint_body format specs st of
                  Inl e \<Rightarrow> Inl e
                | Inr st1 \<Rightarrow> vprint_loop format specs st1))"
  by pat_completeness auto
termination
proof (relation "measures [\<lambda>(format, specs, st). Suc (length format) - pos st,
                           \<lambda>(format, specs, st). length specs - spec_idx st]")
  show "wf (measures [\<lambda>(format, specs, st). Suc (length format) - pos st,
                      \<lambda>(format, specs, st). length specs - spec_idx st])"
    by simp
next
  fix format :: string and specs :: format_specs_array_t and st st1 :: driver_state and c
  assume pk: "peek format (pos st) = Some c" and nz: "c \<noteq> NUL"
    and b: "vprint_body format specs st = Inr st1"
  from pk nz have "pos st < length format"
    by (auto simp: peek_def split: if_splits)
  with vprint_body_progress [OF b]
  show "((format, specs, st1), (format, specs, st)) \<in>
          measures [\<lambda>(format, specs, st). Suc (length format) - pos st,
                    \<lambda>(format, specs, st). length specs - spec_idx st]"
    by auto
qed

declare vprint_loop.simps [simp del]

text \<open>
  Lines 350-493. The result is the returned \<^verbatim>\<open>int\<close> and the final state (cursor, sink and
  stores); on the early \<^verbatim>\<open>return -1\<close> nothing has been touched.
\<close>

definition display_vprint :: "string option \<Rightarrow> va_slot list \<Rightarrow> fault + (int \<times> driver_state)" where
  "display_vprint format as =
     (case format of
        None \<Rightarrow> Inr (- 1, init_state as)
      | Some s \<Rightarrow>
          (case find_format_specifiers format of
             Inl e \<Rightarrow> Inl e
           | Inr specs \<Rightarrow>
               (case vprint_loop s specs (init_state as) of
                  Inl e \<Rightarrow> Inl e
                | Inr st \<Rightarrow> Inr (spec_count st + struct_count st, st))))"

section \<open>The stream-sink driver: display_vfprint (display.h, lines 521-669)\<close>

text \<open>
  The sink is the stream \<^verbatim>\<open>file\<close>; its address is passed on to \<^verbatim>\<open>fprintf\<close>, \<^verbatim>\<open>putc\<close> and the
  rendering function.
\<close>

text \<open>\<^verbatim>\<open>fprintf(file, substr, va_arg(args, T));\<close>\<close>

definition fprintf_arg :: "nat \<Rightarrow> string \<Rightarrow> ctype \<Rightarrow> driver_state \<Rightarrow> fault + driver_state" where
  "fprintf_arg file f T st =
     (case va_arg T (args st) of
        Inl e \<Rightarrow> Inl e
      | Inr (v, rest) \<Rightarrow> Inr (st\<lparr>args := rest, sink := sink st @ [Fmt f v]\<rparr>))"

text \<open>Lines 533-635: the \<^verbatim>\<open>switch\<close> on the type of the current entry.\<close>

definition vfprint_field :: "nat \<Rightarrow> format_spec_t \<Rightarrow> driver_state \<Rightarrow> fault + driver_state" where
  "vfprint_field file spec st =
     (case type spec of
        TYPE_INT \<Rightarrow> fprintf_arg file (substr spec) C_int st
      | TYPE_SIGNED_INT8 \<Rightarrow> fprintf_arg file (substr spec) C_int st
      | TYPE_SHORT \<Rightarrow> fprintf_arg file (substr spec) C_int st
      | TYPE_LONG \<Rightarrow> fprintf_arg file (substr spec) C_long st
      | TYPE_LONG_LONG \<Rightarrow> fprintf_arg file (substr spec) C_long_long st
      | TYPE_INTMAX_T \<Rightarrow> fprintf_arg file (substr spec) C_intmax_t st
      | TYPE_SSIZE_T \<Rightarrow> fprintf_arg file (substr spec) C_ssize_t st
      | TYPE_PTRDIFF_T \<Rightarrow> fprintf_arg file (substr spec) C_ptrdiff_t st
      | TYPE_UINT \<Rightarrow> fprintf_arg file (substr spec) C_unsigned_int st
      | TYPE_UINT8 \<Rightarrow> fprintf_arg file (substr spec) C_unsigned_int st
      | TYPE_USHORT \<Rightarrow> fprintf_arg file (substr spec) C_unsigned_int st
      | TYPE_ULONG \<Rightarrow> fprintf_arg file (substr spec) C_unsigned_long st
      | TYPE_ULONG_LONG \<Rightarrow> fprintf_arg file (substr spec) C_unsigned_long_long st
      | TYPE_UINTMAX_T \<Rightarrow> fprintf_arg file (substr spec) C_uintmax_t st
      | TYPE_SIZE_T \<Rightarrow> fprintf_arg file (substr spec) C_size_t st
      | TYPE_POINTER \<Rightarrow> fprintf_arg file (substr spec) C_void_ptr st
      | TYPE_STRING \<Rightarrow> fprintf_arg file (substr spec) C_char_ptr st
      | TYPE_POINTER_INT \<Rightarrow> store_count C_int st
      | TYPE_POINTER_SIGNED_INT8 \<Rightarrow> store_count C_signed_char st
      | TYPE_POINTER_SHORT \<Rightarrow> store_count C_short st
      | TYPE_POINTER_LONG \<Rightarrow> store_count C_long st
      | TYPE_POINTER_LONG_LONG \<Rightarrow> store_count C_long_long st
      | TYPE_POINTER_INTMAX_T \<Rightarrow> store_count C_intmax_t st
      | TYPE_POINTER_SSIZE_T \<Rightarrow> store_count C_ssize_t st
      | TYPE_POINTER_PTRDIFF_T \<Rightarrow> store_count C_ptrdiff_t st
      | TYPE_FLOAT \<Rightarrow> fprintf_arg file (substr spec) C_double st
      | TYPE_DOUBLE \<Rightarrow> fprintf_arg file (substr spec) C_double st
      | TYPE_LONG_DOUBLE \<Rightarrow> fprintf_arg file (substr spec) C_long_double st
      | TYPE_NONE \<Rightarrow> Inr st)"

text \<open>Lines 647-659: the opaque delimiter.\<close>

definition vfprint_display :: "nat \<Rightarrow> driver_state \<Rightarrow> fault + driver_state" where
  "vfprint_display file st =
     (case va_arg_display (args st) of
        Inl e \<Rightarrow> Inl e
      | Inr (d, rest) \<Rightarrow>
          (let st1 = st\<lparr>args := rest\<rparr> in
           case d of
             None \<Rightarrow> Inr (st1\<lparr>pos := pos st1 + 2\<rparr>)
           | Some dv \<Rightarrow>
               (case fdisplay_fn dv of
                  None \<Rightarrow> Inr (st1\<lparr>pos := pos st1 + 2\<rparr>)
                | Some g \<Rightarrow>
                    (case self dv of
                       None \<Rightarrow> Inr (st1\<lparr>pos := pos st1 + 2\<rparr>)
                     | Some a \<Rightarrow>
                         (case g a file of
                            (text, rc) \<Rightarrow>
                              (let st2 = st1\<lparr>sink := sink st1 @ [Txt text]\<rparr> in
                               if rc = - 1 then Inr (st2\<lparr>pos := pos st2 + 2\<rparr>)
                               else Inr (st2\<lparr>pos := pos st2 + 2,
                                              struct_count := struct_count st2 + 1\<rparr>)))))))"

text \<open>Lines 531-663: one iteration of the loop, entered with \<^verbatim>\<open>*p\<close> not NUL.\<close>

definition vfprint_body :: "nat \<Rightarrow> string \<Rightarrow> format_specs_array_t \<Rightarrow> driver_state \<Rightarrow> fault + driver_state" where
  "vfprint_body file format specs st =
     (case peek format (pos st) of
        None \<Rightarrow> Inl ReadPastEnd
      | Some c \<Rightarrow>
          if c = CHR ''%'' then
            (case peek format (pos st + 1) of
               None \<Rightarrow> Inl ReadPastEnd
             | Some c1 \<Rightarrow>
                 if c1 \<noteq> CHR ''%'' then
                   (if spec_idx st < length specs then
                      (case vfprint_field file (specs ! spec_idx st) st of
                         Inl e \<Rightarrow> Inl e
                       | Inr st1 \<Rightarrow>
                           Inr (st1\<lparr>pos := pos st1 + length (substr (specs ! spec_idx st)),
                                    spec_idx := spec_idx st1 + 1,
                                    spec_count := spec_count st1 + 1\<rparr>))
                    else Inr (st\<lparr>sink := sink st @ [Chr c], pos := pos st + 1\<rparr>))
                 else Inr (st\<lparr>sink := sink st @ [Chr CHR ''%''], pos := pos st + 2\<rparr>))
          else if c = CHR ''{'' then
            (case peek format (pos st + 1) of
               None \<Rightarrow> Inl ReadPastEnd
             | Some c1 \<Rightarrow>
                 if c1 = CHR ''}'' then vfprint_display file st
                 else Inr (st\<lparr>sink := sink st @ [Chr c], pos := pos st + 1\<rparr>))
          else Inr (st\<lparr>sink := sink st @ [Chr c], pos := pos st + 1\<rparr>))"

lemma fprintf_arg_keeps:
  "fprintf_arg file f T st = Inr st1 \<Longrightarrow> pos st1 = pos st \<and> spec_idx st1 = spec_idx st"
  by (auto simp: fprintf_arg_def split: sum.splits)

lemma vfprint_field_keeps:
  "vfprint_field file spec st = Inr st1 \<Longrightarrow> pos st1 = pos st \<and> spec_idx st1 = spec_idx st"
  unfolding vfprint_field_def
  by (cases "type spec") (simp_all add: fprintf_arg_keeps store_count_keeps)

lemma vfprint_display_advances: "vfprint_display file st = Inr st1 \<Longrightarrow> pos st1 = pos st + 2"
  by (auto simp: vfprint_display_def Let_def
      split: sum.splits option.splits prod.splits if_splits)

lemma vfprint_body_progress:
  assumes "vfprint_body file format specs st = Inr st1"
  shows "pos st < pos st1 \<or>
         (pos st1 = pos st \<and> spec_idx st < length specs \<and> spec_idx st1 = spec_idx st + 1)"
proof (cases "peek format (pos st) = Some CHR ''%'' \<and> spec_idx st < length specs
              \<and> (\<exists>c1. peek format (pos st + 1) = Some c1 \<and> c1 \<noteq> CHR ''%'')")
  case True
  with assms obtain st0 where f: "vfprint_field file (specs ! spec_idx st) st = Inr st0"
    and s: "st1 = st0\<lparr>pos := pos st0 + length (substr (specs ! spec_idx st)),
                      spec_idx := spec_idx st0 + 1, spec_count := spec_count st0 + 1\<rparr>"
    by (auto simp: vfprint_body_def split: sum.splits)
  from vfprint_field_keeps [OF f] s True show ?thesis by auto
next
  case False
  with assms show ?thesis
    by (auto simp: vfprint_body_def split: option.splits if_splits
        dest: vfprint_display_advances)
qed

text \<open>Lines 530-664: the loop.\<close>

function vfprint_loop :: "nat \<Rightarrow> string \<Rightarrow> format_specs_array_t \<Rightarrow> driver_state \<Rightarrow> fault + driver_state" where
  "vfprint_loop file format specs st =
     (case peek format (pos st) of
        None \<Rightarrow> Inl ReadPastEnd
      | Some c \<Rightarrow>
          if c = NUL then Inr st
          else (case vfprint_body file format specs st of
                  Inl e \<Rightarrow> Inl e
                | Inr st1 \<Rightarrow> vfprint_loop file format specs st1))"
  by pat_completeness auto
termination
proof (relation "measures [\<lambda>(file, format, specs, st). Suc (length format) - pos st,
                           \<lambda>(file, format, specs, st). length specs - spec_idx st]")
  show "wf (measures [\<lambda>(file, format, specs, st). Suc (length format) - pos st,
                      \<lambda>(file, format, specs, st). length specs - spec_idx st])"
    by simp
next
  fix fl :: nat and format :: string and specs :: format_specs_array_t
    and st st1 :: driver_state and c
  assume pk: "peek format (pos st) = Some c" and nz: "c \<noteq> NUL"
    and b: "vfprint_body fl format specs st = Inr st1"
  from pk nz have "pos st < length format"
    by (auto simp: peek_def split: if_splits)
  with vfprint_body_progress [OF b]
  show "((fl, format, specs, st1), (fl, format, specs, st)) \<in>
          measures [\<lambda>(file, format, specs, st). Suc (length format) - pos st,
                    \<lambda>(file, format, specs, st). length specs - spec_idx st]"
    by auto
qed

declare vfprint_loop.simps [simp del]

text \<open>Lines 521-669. The stream pointer \<^verbatim>\<open>file\<close> may be null: \<open>None\<close>.\<close>

definition display_vfprint ::
  "nat option \<Rightarrow> string option \<Rightarrow> va_slot list \<Rightarrow> fault + (int \<times> driver_state)" where
  "display_vfprint file format as =
     (case format of
        None \<Rightarrow> Inr (- 1, init_state as)
      | Some s \<Rightarrow>
          (case file of
             None \<Rightarrow> Inr (- 1, init_state as)
           | Some fl \<Rightarrow>
               (case find_format_specifiers format of
                  Inl e \<Rightarrow> Inl e
                | Inr specs \<Rightarrow>
                    (case vfprint_loop fl s specs (init_state as) of
                       Inl e \<Rightarrow> Inl e
                     | Inr st \<Rightarrow> Inr (spec_count st + struct_count st, st)))))"

section \<open>Notions used to state the properties\<close>

text \<open>
  The write-count tags and the pointee type of each (the comments of lines 125-132); \<open>None\<close>
  for every other tag.
\<close>

fun write_count_pointee :: "var_type \<Rightarrow> ctype option" where
  "write_count_pointee TYPE_POINTER_SIGNED_INT8 = Some C_signed_char"
| "write_count_pointee TYPE_POINTER_SHORT = Some C_short"
| "write_count_pointee TYPE_POINTER_INT = Some C_int"
| "write_count_pointee TYPE_POINTER_LONG = Some C_long"
| "write_count_pointee TYPE_POINTER_LONG_LONG = Some C_long_long"
| "write_count_pointee TYPE_POINTER_INTMAX_T = Some C_intmax_t"
| "write_count_pointee TYPE_POINTER_SSIZE_T = Some C_ssize_t"
| "write_count_pointee TYPE_POINTER_PTRDIFF_T = Some C_ptrdiff_t"
| "write_count_pointee t = None"

text \<open>
  What the rendering function of an opaque display value yields for the byte sink and for
  the stream sink: \<open>None\<close> when the value is null, lacks the rendering function of that sink or
  lacks its self-reference.
\<close>

definition byte_rendering :: "display_t option \<Rightarrow> (string \<times> int) option" where
  "byte_rendering d =
     (case d of
        None \<Rightarrow> None
      | Some dv \<Rightarrow>
          (case display_fn dv of
             None \<Rightarrow> None
           | Some f \<Rightarrow> (case self dv of None \<Rightarrow> None | Some a \<Rightarrow> Some (f a))))"

definition stream_rendering :: "nat \<Rightarrow> display_t option \<Rightarrow> (string \<times> int) option" where
  "stream_rendering file d =
     (case d of
        None \<Rightarrow> None
      | Some dv \<Rightarrow>
          (case fdisplay_fn dv of
             None \<Rightarrow> None
           | Some g \<Rightarrow> (case self dv of None \<Rightarrow> None | Some a \<Rightarrow> Some (g a file))))"

text \<open>
  The state after an opaque field: the cursor has moved to \<open>rest\<close> and the position past the
  delimiter; a rendering, if any, has left its text in the sink, and is counted unless it
  returned \<open>-1\<close>.
\<close>

definition opaque_field :: "(string \<times> int) option \<Rightarrow> va_slot list \<Rightarrow> driver_state \<Rightarrow> driver_state" where
  "opaque_field r rest st =
     (case r of
        None \<Rightarrow> st\<lparr>args := rest, pos := pos st + 2\<rparr>
      | Some (text, rc) \<Rightarrow>
          st\<lparr>args := rest, sink := sink st @ [Txt text], pos := pos st + 2,
             struct_count := struct_count st + (if rc = - 1 then 0 else 1)\<rparr>)"

text \<open>
  An argument on which the two sinks agree: a native argument, a null display value, or a
  display value that has both \<^verbatim>\<open>display_fn\<close> and \<^verbatim>\<open>fdisplay_fn\<close>, which write the same text and
  agree on whether they return \<open>-1\<close>.
\<close>

definition same_rendering :: "nat \<Rightarrow> va_slot \<Rightarrow> bool" where
  "same_rendering fp slot =
     (case slot of
        Arg T v \<Rightarrow> True
      | ArgDisplay None \<Rightarrow> True
      | ArgDisplay (Some d) \<Rightarrow>
          (case (display_fn d, fdisplay_fn d) of
             (Some f, Some g) \<Rightarrow>
               (case self d of
                  None \<Rightarrow> True
                | Some a \<Rightarrow>
                    fst (f a) = fst (g a fp) \<and> ((snd (f a) = - 1) = (snd (g a fp) = - 1)))
           | _ \<Rightarrow> False))"

text \<open>The state \<open>st\<close> with its position moved forward by \<open>n\<close>.\<close>

definition moved :: "nat \<Rightarrow> driver_state \<Rightarrow> driver_state" where
  "moved n st = st\<lparr>pos := pos st + n\<rparr>"

text \<open>
  The walk of the loop of \<^verbatim>\<open>display_vprint\<close> cut off after \<open>n\<close> iterations: the state in which
  the driver is when it has run the loop body \<open>n\<close> times, or has left the loop before.
\<close>

fun vprint_steps :: "nat \<Rightarrow> string \<Rightarrow> format_specs_array_t \<Rightarrow> driver_state \<Rightarrow> fault + driver_state" where
  "vprint_steps 0 format specs st = Inr st"
| "vprint_steps (Suc n) format specs st =
     (case peek format (pos st) of
        None \<Rightarrow> Inl ReadPastEnd
      | Some c \<Rightarrow>
          if c = NUL then Inr st
          else (case vprint_body format specs st of
                  Inl e \<Rightarrow> Inl e
                | Inr st1 \<Rightarrow> vprint_steps n format specs st1))"

text \<open>
  The state after a write-count entry: the pointer is consumed, the count, as the pointee
  holds it, is stored at its address, the position has moved by the length of the entry's
  substring, and the entry is counted.
\<close>

definition count_field :: "ctype \<Rightarrow> nat \<Rightarrow> va_slot list \<Rightarrow> nat \<Rightarrow> driver_state \<Rightarrow> driver_state" where
  "count_field T a rest len st =
     st\<lparr>args := rest,
        stores := stores st @ [(T, a, assigned_int T (spec_count st + struct_count st))],
        pos := pos st + len,
        spec_idx := spec_idx st + 1,
        spec_count := spec_count st + 1\<rparr>"

text \<open>
  An instance of the C library's formatter, for the unadorned conversions \<open>%d\<close> and \<open>%s\<close>
  only; it serves to instantiate the statements that are parametric in the formatter.
\<close>

fun dec_digits :: "nat \<Rightarrow> string" where
  "dec_digits n =
     (if n < 10 then [''0123456789'' ! n]
      else dec_digits (n div 10) @ [''0123456789'' ! (n mod 10)])"

declare dec_digits.simps [simp del]

definition printf_plain :: "string \<Rightarrow> cval \<Rightarrow> string" where
  "printf_plain f v =
     (case v of
        VInt i \<Rightarrow>
          (if f = ''%d'' then (if i < 0 then CHR ''-'' # dec_digits (nat (- i)) else dec_digits (nat i))
           else [])
      | VStr s \<Rightarrow> (if f = ''%s'' then s else [])
      | _ \<Rightarrow> [])"

section \<open>Evaluation rules\<close>

lemmas scan_eval =
  find_format_specifiers_def scan_loop.simps scan_marker_def skip_flags.simps
  skip_digits.simps scan_width_def scan_precision_def scan_length_def get_type_def
  peek_def strchr_def isdigit_def cstr_def NUL_def Let_def

lemmas vprint_eval =
  display_vprint_def vprint_loop.simps vprint_body_def vprint_field_def vprint_display_def
  printf_arg_def store_count_def init_state_def

section \<open>The scanner on truncated and malformed markers\<close>

text \<open>
  C1. The claim: on every template, also one that ends in the middle of a marker
  (a trailing \<open>%\<close>, \<open>%-\<close>, \<open>%5\<close>), the scanner's position strictly advances, so the scan
  terminates and never reads past the end of the template, and a malformed marker is dropped.

  The position does advance on every step (\<open>scan_marker_advances\<close>, on which the
  termination of \<open>scan_loop\<close> rests), but the scan does read past the end: \<^verbatim>\<open>strchr\<close> finds the
  terminator of its first argument, so the flag loop of line 194 and the length test of line
  221 accept the NUL that ends the template and step over it. On each of the templates below
  the next read is outside the array. On \<open>%l\<close> the conversion letter is looked for at the
  terminator and found (line 233): the truncated marker is entered, not dropped, and the
  scan goes on at position 3, behind the terminator.
\<close>

theorem find_format_specifiers_reads_past_end:
  "find_format_specifiers (Some ''%'') = Inl ReadPastEnd \<and>
   find_format_specifiers (Some ''%-'') = Inl ReadPastEnd \<and>
   find_format_specifiers (Some ''%5'') = Inl ReadPastEnd \<and>
   find_format_specifiers (Some ''%l'') = Inl ReadPastEnd \<and>
   scan_marker ''%l'' 0 = Inr (3, Some \<lparr>substr = ''%l'', type = TYPE_LONG\<rparr>)"
  by (simp add: scan_eval)

text \<open>
  C3. The claim: the length modifier is exactly one of \<open>hh\<close>, \<open>h\<close>, \<open>l\<close>, \<open>ll\<close>, \<open>j\<close>, \<open>z\<close>, \<open>t\<close>,
  \<open>L\<close>; a two-character token is accepted only when it repeats one character, so \<open>hl\<close> and
  \<open>lh\<close> are not accepted.

  The test of lines 224-225 asks only that both characters are among \<open>h\<close> and \<open>l\<close>, so the
  scanner takes \<open>hl\<close> and \<open>lh\<close> as length modifiers; no row of the type table matches them and
  the marker is entered with the default type.
\<close>

theorem scan_length_accepts_mixed_pair:
  "scan_length ''%hld'' 1 = Inr (''hl'', 3) \<and>
   scan_length ''%lhd'' 1 = Inr (''lh'', 3) \<and>
   find_format_specifiers (Some ''%hld'') = Inr [\<lparr>substr = ''%hld'', type = TYPE_INT\<rparr>] \<and>
   find_format_specifiers (Some ''%lhd'') = Inr [\<lparr>substr = ''%lhd'', type = TYPE_INT\<rparr>]"
  by (simp add: scan_eval)

section \<open>The null template\<close>

text \<open>
  C6. The claim: invoked with a null template, the scanner returns an empty marker sequence,
  which the driver reports as failure with nothing rendered.

  The scanner has no null check: its first step dereferences the pointer.
\<close>

theorem find_format_specifiers_null_counterexample:
  "find_format_specifiers None \<noteq> Inr []"
  by (simp add: find_format_specifiers_def)

text \<open>
  C6, as amended. The scanner dereferences a null template; the drivers never pass it one:
  each driver tests the template itself before calling the scanner and returns \<open>-1\<close> with
  nothing written to the sink, no argument taken from the cursor and nothing stored.
\<close>

theorem null_template_fails_in_driver:
  "find_format_specifiers None = Inl NullDeref \<and>
   display_vprint None as = Inr (- 1, init_state as) \<and>
   display_vfprint fp None as = Inr (- 1, init_state as) \<and>
   sink (init_state as) = [] \<and> args (init_state as) = as \<and> stores (init_state as) = []"
  by (simp add: find_format_specifiers_def display_vprint_def display_vfprint_def init_state_def)

section \<open>Pairing of markers and entries\<close>

text \<open>
  C9. The driver pairs markers with entries by counting \<open>%\<close> occurrences: in some template
  where a malformed marker precedes a well-formed one, the driver uses the well-formed
  marker's entry at the malformed marker's position, advances by that entry's length, and
  every later marker gets the wrong entry or is copied as a literal \<open>%\<close>.

  The template is \<open>%5q%d%s\<close>. The scanner drops \<open>%5q\<close> and enters \<open>%d\<close> and \<open>%s\<close>. At position
  0 the driver formats the \<^verbatim>\<open>int\<close> argument with the entry \<open>%d\<close> and advances by 2, the length of
  \<open>%d\<close>, into the middle of \<open>%5q\<close>. The marker \<open>%d\<close> is then given the entry \<open>%s\<close>, and the
  marker \<open>%s\<close> finds the list exhausted and is copied.
\<close>

theorem dropped_marker_shifts_pairing:
  "find_format_specifiers (Some ''%5q%d%s'') =
     Inr [\<lparr>substr = ''%d'', type = TYPE_INT\<rparr>, \<lparr>substr = ''%s'', type = TYPE_STRING\<rparr>] \<and>
   vprint_body ''%5q%d%s''
       [\<lparr>substr = ''%d'', type = TYPE_INT\<rparr>, \<lparr>substr = ''%s'', type = TYPE_STRING\<rparr>]
       (init_state [Arg C_int (VInt 7), Arg C_char_ptr (VStr ''ok'')]) =
     Inr \<lparr>pos = 2, args = [Arg C_char_ptr (VStr ''ok'')], spec_idx = 1, spec_count = 1,
          struct_count = 0, sink = [Fmt ''%d'' (VInt 7)], stores = []\<rparr> \<and>
   display_vprint (Some ''%5q%d%s'') [Arg C_int (VInt 7), Arg C_char_ptr (VStr ''ok'')] =
     Inr (2, \<lparr>pos = 7, args = [], spec_idx = 2, spec_count = 2, struct_count = 0,
              sink = [Fmt ''%d'' (VInt 7), Chr CHR ''q'', Fmt ''%s'' (VStr ''ok''),
                      Chr CHR ''%'', Chr CHR ''s''],
              stores = []\<rparr>)"
  by (simp add: scan_eval vprint_eval)

section \<open>The byte-sink driver on the scenario of the specification\<close>

text \<open>
  C2. Rendering the template \<open>%d-%s {} end\<close> to the byte sink with the arguments 5, \<open>"ok"\<close>
  and an opaque display value whose rendering writes \<open>OK\<close> and succeeds produces exactly the
  output \<open>5-ok OK end\<close> and returns 3. The native formatter is a parameter: it is only asked
  to write \<open>5\<close> for \<open>%d\<close> of 5 and \<open>ok\<close> for \<open>%s\<close> of \<open>"ok"\<close>.
\<close>

theorem display_vprint_scenario:
  assumes "display_fn d = Some f" and "self d = Some a" and "f a = (''OK'', rc)" and "rc \<noteq> - 1"
    and "native ''%d'' (VInt 5) = ''5''" and "native ''%s'' (VStr ''ok'') = ''ok''"
  shows "\<exists>st. display_vprint (Some ''%d-%s {} end'')
                [Arg C_int (VInt 5), Arg C_char_ptr (VStr ''ok''), ArgDisplay (Some d)] = Inr (3, st)
              \<and> sink_text native (sink st) = ''5-ok OK end''
              \<and> args st = [] \<and> stores st = []"
  using assms by (simp add: scan_eval vprint_eval sink_text_def)

theorem display_vprint_scenario_witness:
  "\<exists>st. display_vprint (Some ''%d-%s {} end'')
          [Arg C_int (VInt 5), Arg C_char_ptr (VStr ''ok''),
           ArgDisplay (Some \<lparr>display_fn = Some (\<lambda>a. (''OK'', 2)), fdisplay_fn = None,
                             sndisplay_fn = None, self = Some 1\<rparr>)] = Inr (3, st)
        \<and> sink_text printf_plain (sink st) = ''5-ok OK end''
        \<and> args st = [] \<and> stores st = []"
  using display_vprint_scenario [where f = "\<lambda>a. (''OK'', 2)" and a = 1 and rc = 2
      and native = printf_plain
      and d = "\<lparr>display_fn = Some (\<lambda>a. (''OK'', 2)), fdisplay_fn = None,
                sndisplay_fn = None, self = Some 1\<rparr>"]
  by (simp add: printf_plain_def dec_digits.simps)

section \<open>Write-count markers\<close>

text \<open>
  Scanning or walking \<open>A @ B\<close> from the end of \<open>A\<close> is scanning or walking \<open>B\<close> from its start:
  the scanner and the driver look at the template only from the current position on.
\<close>

lemma peek_append: "peek (A @ B) (length A + p) = peek B p"
  by (auto simp: peek_def nth_append)

lemma skip_flags_shift:
  "skip_flags (A @ B) (length A + p) = map_sum id ((+) (length A)) (skip_flags B p)"
proof (induction B p rule: skip_flags.induct)
  case (1 s p)
  show ?case
  proof (cases "peek s p")
    case None
    then show ?thesis
      by (simp add: skip_flags.simps [of "A @ s"] skip_flags.simps [of s p] peek_append)
  next
    case (Some c)
    with "1.IH" [OF Some] show ?thesis
      by (simp add: skip_flags.simps [of "A @ s" "length A + p"] skip_flags.simps [of s p]
          peek_append add.assoc del: One_nat_def)
  qed
qed

lemma skip_digits_shift:
  "skip_digits (A @ B) (length A + p) = map_sum id ((+) (length A)) (skip_digits B p)"
proof (induction B p rule: skip_digits.induct)
  case (1 s p)
  show ?case
  proof (cases "peek s p")
    case None
    then show ?thesis
      by (simp add: skip_digits.simps [of "A @ s"] skip_digits.simps [of s p] peek_append)
  next
    case (Some c)
    with "1.IH" [OF Some] show ?thesis
      by (simp add: skip_digits.simps [of "A @ s" "length A + p"] skip_digits.simps [of s p]
          peek_append add.assoc del: One_nat_def)
  qed
qed

lemma scan_width_shift:
  "scan_width (A @ B) (length A + p) = map_sum id ((+) (length A)) (scan_width B p)"
  by (simp add: scan_width_def peek_append skip_digits_shift split: option.splits)

lemma scan_precision_shift:
  "scan_precision (A @ B) (length A + p) = map_sum id ((+) (length A)) (scan_precision B p)"
  using peek_append [of A B "p + 1"] skip_digits_shift [of A B "p + 1"]
  by (simp add: scan_precision_def peek_append add.assoc split: option.splits del: One_nat_def)

lemma scan_length_shift:
  "scan_length (A @ B) (length A + p) =
     map_sum id (\<lambda>(len, q). (len, length A + q)) (scan_length B p)"
  using peek_append [of A B "p + 1"]
  by (simp add: scan_length_def peek_append add.assoc split: option.splits del: One_nat_def)


lemma scan_marker_shift:
  "scan_marker (A @ B) (length A + p) =
     map_sum id (\<lambda>(q, e). (length A + q, e)) (scan_marker B p)"
proof -
  have f: "skip_flags (A @ B) (length A + p + 1) =
             map_sum id ((+) (length A)) (skip_flags B (p + 1))"
    using skip_flags_shift [of A B "p + 1"] by (simp add: add.assoc)
  have d: "drop (length A + p) ((A @ B) @ [NUL]) = drop p (B @ [NUL])"
    by simp
  have t: "length A + q + 1 - (length A + p) = q + 1 - p" for q
    by simp
  show ?thesis
    unfolding scan_marker_def f
    by (cases "skip_flags B (p + 1)")
       (auto simp: scan_width_shift scan_precision_shift scan_length_shift peek_append
         Let_def d t simp del: One_nat_def append_assoc
         split: sum.splits option.splits prod.splits)
qed

lemma scan_loop_shift: "scan_loop (A @ B) (length A + p) acc = scan_loop B p acc"
proof (induction B p acc rule: scan_loop.induct)
  case (1 s p specs)
  note u = scan_loop.simps [of "A @ s" "length A + p" specs] scan_loop.simps [of s p specs]
  show ?case
  proof (cases "peek s p")
    case None
    then show ?thesis by (simp add: u peek_append)
  next
    case (Some c)
    show ?thesis
    proof (cases "c = NUL \<or> c \<noteq> CHR ''%''")
      case True
      with Some "1.IH"(4) [OF Some] show ?thesis
        by (auto simp: u peek_append add.assoc simp del: One_nat_def)
    next
      case False
      then have c: "c \<noteq> NUL" "c = CHR ''%''" by auto
      show ?thesis
      proof (cases "peek s (p + 1)")
        case None
        with Some c peek_append [of A s "p + 1"] show ?thesis
          by (simp add: u peek_append add.assoc del: One_nat_def)
      next
        case n: (Some cn)
        show ?thesis
        proof (cases "cn = CHR ''%''")
          case True
          with Some c n peek_append [of A s "p + 1"] "1.IH"(1) [OF Some c n True]
          show ?thesis
            by (simp add: u peek_append add.assoc del: One_nat_def)
        next
          case False
          show ?thesis
          proof (cases "scan_marker s p")
            case (Inl e)
            with Some c n False peek_append [of A s "p + 1"] show ?thesis
              by (simp add: u peek_append add.assoc scan_marker_shift del: One_nat_def)
          next
            case (Inr r)
            obtain q eo where r: "r = (q, eo)" by (cases r)
            show ?thesis
            proof (cases eo)
              case None
              with Some c n False Inr r peek_append [of A s "p + 1"]
                "1.IH"(2) [OF Some c n False Inr r [symmetric] None]
              show ?thesis
                by (simp add: u peek_append add.assoc scan_marker_shift del: One_nat_def)
            next
              case e: (Some e)
              with Some c n False Inr r peek_append [of A s "p + 1"]
                "1.IH"(3) [OF Some c n False Inr r [symmetric] e]
              show ?thesis
                by (simp add: u peek_append add.assoc scan_marker_shift del: One_nat_def)
            qed
          qed
        qed
      qed
    qed
  qed
qed

lemma printf_arg_moved:
  "printf_arg f T (moved n st) = map_sum id (moved n) (printf_arg f T st)"
  by (simp add: printf_arg_def moved_def split: sum.splits)

lemma store_count_moved:
  "store_count T (moved n st) = map_sum id (moved n) (store_count T st)"
  by (simp add: store_count_def moved_def split: sum.splits cval.splits option.splits)

lemma vprint_field_moved:
  "vprint_field e (moved n st) = map_sum id (moved n) (vprint_field e st)"
  unfolding vprint_field_def
  by (cases "type e") (simp_all add: printf_arg_moved store_count_moved)

lemma vprint_display_moved:
  "vprint_display (moved n st) = map_sum id (moved n) (vprint_display st)"
  by (simp add: vprint_display_def moved_def Let_def
      split: sum.splits option.splits prod.splits)

lemma vprint_body_moved:
  "vprint_body (A @ B) specs (moved (length A) st) =
     map_sum id (moved (length A)) (vprint_body B specs st)"
proof -
  have p: "pos (moved (length A) st) = length A + pos st"
    "spec_idx (moved (length A) st) = spec_idx st"
    by (simp_all add: moved_def)
  have q: "peek (A @ B) (length A + pos st + 1) = peek B (pos st + 1)"
    using peek_append [of A B "pos st + 1"] by (simp add: add.assoc)
  have m: "moved (length A) st\<lparr>sink := sink (moved (length A) st) @ [x],
             pos := length A + pos st + k\<rparr> =
           moved (length A) (st\<lparr>sink := sink st @ [x], pos := pos st + k\<rparr>)" for x k
    by (simp add: moved_def)
  show ?thesis
    unfolding vprint_body_def p q peek_append vprint_field_moved vprint_display_moved m
    by (auto simp: moved_def split: option.splits sum.splits)
qed


lemma vprint_loop_moved:
  "vprint_loop (A @ B) specs (moved (length A) st) =
     map_sum id (moved (length A)) (vprint_loop B specs st)"
proof (induction B specs st rule: vprint_loop.induct)
  case (1 s specs st)
  have p: "peek (A @ s) (pos (moved (length A) st)) = peek s (pos st)"
    using peek_append [of A s "pos st"] by (simp add: moved_def add.commute)
  note u = vprint_loop.simps [of "A @ s" specs "moved (length A) st"]
    vprint_loop.simps [of s specs st]
  show ?case
  proof (cases "peek s (pos st)")
    case None
    then show ?thesis by (simp add: u p)
  next
    case (Some c)
    show ?thesis
    proof (cases "c = NUL")
      case True
      with Some show ?thesis by (simp add: u p)
    next
      case False
      show ?thesis
      proof (cases "vprint_body s specs st")
        case (Inl e)
        with Some False show ?thesis by (simp add: u p vprint_body_moved)
      next
        case (Inr st')
        with Some False "1.IH" [OF Some False Inr] show ?thesis
          by (simp add: u p vprint_body_moved)
      qed
    qed
  qed
qed

lemma scan_loop_none_markers:
  "scan_loop (concat (replicate k ''% %'') @ B) 0 acc =
     scan_loop B 0 (acc @ replicate k \<lparr>substr = ''% %'', type = TYPE_NONE\<rparr>)"
proof (induction k arbitrary: acc)
  case 0
  show ?case by simp
next
  case (Suc k)
  let ?B = "concat (replicate k ''% %'') @ B"
  have "scan_loop (''% %'' @ ?B) 0 acc =
          scan_loop (''% %'' @ ?B) (length ''% %'' + 0)
            (acc @ [\<lparr>substr = ''% %'', type = TYPE_NONE\<rparr>])"
    by (simp add: scan_loop.simps [of _ 0 acc] scan_marker_def skip_flags.simps
        skip_digits.simps scan_width_def scan_precision_def scan_length_def get_type_def
        peek_def strchr_def isdigit_def cstr_def NUL_def Let_def)
  also have "\<dots> = scan_loop ?B 0 (acc @ [\<lparr>substr = ''% %'', type = TYPE_NONE\<rparr>])"
    by (rule scan_loop_shift)
  also have "\<dots> = scan_loop B 0 ((acc @ [\<lparr>substr = ''% %'', type = TYPE_NONE\<rparr>]) @
      replicate k \<lparr>substr = ''% %'', type = TYPE_NONE\<rparr>)"
    by (rule Suc.IH)
  finally show ?case
    by (simp add: replicate_append_same)
qed

lemma vprint_loop_none_markers:
  assumes "pos st = 0" and "spec_idx st + k \<le> m"
  shows "vprint_loop (concat (replicate k ''% %'') @ B)
           (replicate m \<lparr>substr = ''% %'', type = TYPE_NONE\<rparr> @ S) st =
         map_sum id (moved (3 * k))
           (vprint_loop B (replicate m \<lparr>substr = ''% %'', type = TYPE_NONE\<rparr> @ S)
              (st\<lparr>spec_idx := spec_idx st + k, spec_count := spec_count st + int k\<rparr>))"
  using assms
proof (induction k arbitrary: st)
  case 0
  have "moved 0 = (\<lambda>st. st)" by (rule ext) (simp add: moved_def)
  then show ?case by (simp add: sum.map_id0 id_def [symmetric] sum.map_id)
next
  case (Suc k)
  let ?B = "concat (replicate k ''% %'') @ B"
  let ?specs = "replicate m \<lparr>substr = ''% %'', type = TYPE_NONE\<rparr> @ S"
  let ?st = "st\<lparr>spec_idx := spec_idx st + 1, spec_count := spec_count st + 1\<rparr>"
  from Suc.prems have i: "spec_idx st < m" by simp
  then have e: "?specs ! spec_idx st = \<lparr>substr = ''% %'', type = TYPE_NONE\<rparr>"
    by (simp add: nth_append)
  from i have l: "spec_idx st < length ?specs" by simp
  have b: "vprint_body (''% %'' @ ?B) ?specs st = Inr (moved (length ''% %'') ?st)"
    using Suc.prems(1) e l
    by (simp add: vprint_body_def vprint_field_def peek_def moved_def del: replicate.simps)
  have "vprint_loop (''% %'' @ ?B) ?specs st =
          vprint_loop (''% %'' @ ?B) ?specs (moved (length ''% %'') ?st)"
    using Suc.prems(1) b
    by (subst vprint_loop.simps) (simp add: peek_def NUL_def del: replicate.simps)
  also have "\<dots> = map_sum id (moved (length ''% %'')) (vprint_loop ?B ?specs ?st)"
    by (rule vprint_loop_moved)
  also have "vprint_loop ?B ?specs ?st =
      map_sum id (moved (3 * k))
        (vprint_loop B ?specs
           (?st\<lparr>spec_idx := spec_idx ?st + k, spec_count := spec_count ?st + int k\<rparr>))"
    using Suc.prems by (intro Suc.IH) simp_all
  finally show ?case
    by (simp add: sum.map_comp comp_def moved_def add.assoc numeral_3_eq_3)
qed

text \<open>
  C5. The claim: for every \<open>%n\<close>-style marker the driver consumes one pointer argument,
  emits no output text for that marker, and stores through the pointer the running count of
  the fields rendered before it; the marker then counts toward the returned count.

  The template is 128 times \<open>% %\<close> (a marker that renders nothing, takes no argument and is
  counted) followed by \<open>%q%hhn\<close>, with one \<^verbatim>\<open>signed char *\<close> argument. The 128 markers are
  counted; at the dropped marker \<open>%q\<close> the driver uses the entry of \<open>%hhn\<close>: the running count
  128 is assigned through the \<^verbatim>\<open>signed char *\<close>, which leaves \<open>-128\<close>, and the position moves
  by 4, into \<open>%hhn\<close>, whose last two characters are copied to the output.
\<close>

theorem write_count_counterexample:
  "find_format_specifiers (Some (concat (replicate 128 ''% %'') @ ''%q%hhn'')) =
     Inr (replicate 128 \<lparr>substr = ''% %'', type = TYPE_NONE\<rparr> @
          [\<lparr>substr = ''%hhn'', type = TYPE_POINTER_SIGNED_INT8\<rparr>]) \<and>
   display_vprint (Some (concat (replicate 128 ''% %'') @ ''%q%hhn''))
     [Arg (C_ptr C_signed_char) (VPtr (Some 100))] =
     Inr (129, \<lparr>pos = 390, args = [], spec_idx = 129, spec_count = 129, struct_count = 0,
                sink = [Chr CHR ''h'', Chr CHR ''n''],
                stores = [(C_signed_char, 100, - 128)]\<rparr>)"
proof -
  let ?e = "\<lparr>substr = ''% %'', type = TYPE_NONE\<rparr>"
  let ?n = "\<lparr>substr = ''%hhn'', type = TYPE_POINTER_SIGNED_INT8\<rparr>"
  let ?T = "concat (replicate 128 ''% %'') @ ''%q%hhn''"
  let ?as = "[Arg (C_ptr C_signed_char) (VPtr (Some 100))]"
  have "scan_loop ?T 0 [] = scan_loop ''%q%hhn'' 0 ([] @ replicate 128 ?e)"
    by (rule scan_loop_none_markers)
  also have "\<dots> = Inr (replicate 128 ?e @ [?n])"
    by (simp add: scan_loop.simps [of "''%q%hhn''"] scan_marker_def skip_flags.simps
        skip_digits.simps scan_width_def scan_precision_def scan_length_def get_type_def
        peek_def strchr_def isdigit_def cstr_def NUL_def Let_def del: replicate.simps)
  finally have s: "find_format_specifiers (Some ?T) = Inr (replicate 128 ?e @ [?n])"
    by (simp add: find_format_specifiers_def)
  have "vprint_loop ?T (replicate 128 ?e @ [?n]) (init_state ?as) =
          map_sum id (moved (3 * 128))
            (vprint_loop ''%q%hhn'' (replicate 128 ?e @ [?n])
               ((init_state ?as)\<lparr>spec_idx := spec_idx (init_state ?as) + 128,
                   spec_count := spec_count (init_state ?as) + int 128\<rparr>))"
    by (rule vprint_loop_none_markers) (simp_all add: init_state_def)
  also have "\<dots> = Inr \<lparr>pos = 390, args = [], spec_idx = 129, spec_count = 129,
      struct_count = 0, sink = [Chr CHR ''h'', Chr CHR ''n''],
      stores = [(C_signed_char, 100, - 128)]\<rparr>"
    by (simp add: vprint_loop.simps [of "''%q%hhn''"] vprint_body_def vprint_field_def
        printf_arg_def store_count_def init_state_def peek_def NUL_def moved_def nth_append
        wrap_signed_def del: replicate.simps)
  finally show ?thesis
    using s by (simp add: display_vprint_def del: replicate.simps)
qed

lemma vprint_steps_loop:
  "vprint_steps n format specs st0 = Inr st \<Longrightarrow>
   vprint_loop format specs st0 = vprint_loop format specs st"
proof (induction n arbitrary: st0)
  case 0
  then show ?case by simp
next
  case (Suc n)
  show ?case
  proof (cases "peek format (pos st0)")
    case None
    with Suc.prems show ?thesis by simp
  next
    case (Some c)
    show ?thesis
    proof (cases "c = NUL")
      case True
      with Some Suc.prems show ?thesis by simp
    next
      case False
      from Some False Suc.prems obtain st1 where
        b: "vprint_body format specs st0 = Inr st1"
        and r: "vprint_steps n format specs st1 = Inr st"
        by (auto split: sum.splits)
      from Some False b have "vprint_loop format specs st0 = vprint_loop format specs st1"
        by (subst vprint_loop.simps) simp
      with Suc.IH [OF r] show ?thesis by simp
    qed
  qed
qed

lemma scan_loop_entries:
  "scan_loop s p acc = Inr specs \<Longrightarrow> e \<in> set specs \<Longrightarrow>
   e \<in> set acc \<or> (\<exists>start q. scan_marker s start = Inr (q, Some e))"
proof (induction s p acc rule: scan_loop.induct)
  case (1 s p acc)
  note u = scan_loop.simps [of s p acc]
  show ?case
  proof (cases "peek s p")
    case None
    with "1.prems"(1) show ?thesis by (simp add: u)
  next
    case (Some c)
    show ?thesis
    proof (cases "c = NUL")
      case True
      with Some "1.prems" show ?thesis by (simp add: u)
    next
      case nz: False
      show ?thesis
      proof (cases "c = CHR ''%''")
        case False
        with Some nz "1.prems"(1) have "scan_loop s (p + 1) acc = Inr specs"
          by (simp add: u)
        from "1.IH"(4) [OF Some nz False this "1.prems"(2)] show ?thesis .
      next
        case pc: True
        show ?thesis
        proof (cases "peek s (p + 1)")
          case None
          with Some nz pc "1.prems"(1) show ?thesis by (simp add: u)
        next
          case n: (Some cn)
          show ?thesis
          proof (cases "cn = CHR ''%''")
            case True
            with Some nz pc n "1.prems"(1) have "scan_loop s (p + 2) acc = Inr specs"
              by (simp add: u)
            from "1.IH"(1) [OF Some nz pc n True this "1.prems"(2)] show ?thesis .
          next
            case False
            show ?thesis
            proof (cases "scan_marker s p")
              case (Inl f)
              with Some nz pc n False "1.prems"(1) show ?thesis by (simp add: u)
            next
              case (Inr r)
              obtain q eo where r: "r = (q, eo)" by (cases r)
              show ?thesis
              proof (cases eo)
                case None
                with Some nz pc n False Inr r "1.prems"(1)
                have "scan_loop s q acc = Inr specs" by (simp add: u)
                from "1.IH"(2) [OF Some nz pc n False Inr r [symmetric] None this "1.prems"(2)]
                show ?thesis .
              next
                case e': (Some e')
                with Some nz pc n False Inr r "1.prems"(1)
                have "scan_loop s q (acc @ [e']) = Inr specs" by (simp add: u)
                from "1.IH"(3) [OF Some nz pc n False Inr r [symmetric] e' this "1.prems"(2)]
                  Inr r e'
                show ?thesis by auto
              qed
            qed
          qed
        qed
      qed
    qed
  qed
qed

lemma scan_marker_write_count:
  assumes "scan_marker s start = Inr (q, Some e)"
    and "write_count_pointee (type e) = Some T"
  shows "peek s (q - 1) = Some CHR ''n''"
proof -
  from assms(1) obtain p1 where 1: "skip_flags s (start + 1) = Inr p1"
    by (auto simp: scan_marker_def split: sum.splits)
  from assms(1) 1 obtain p2 where 2: "scan_width s p1 = Inr p2"
    by (auto simp: scan_marker_def split: sum.splits)
  from assms(1) 1 2 obtain p3 where 3: "scan_precision s p2 = Inr p3"
    by (auto simp: scan_marker_def split: sum.splits)
  from assms(1) 1 2 3 obtain len p4 where 4: "scan_length s p3 = Inr (len, p4)"
    by (auto simp: scan_marker_def split: sum.splits)
  from assms 1 2 3 4 show ?thesis
    by (auto simp: scan_marker_def Let_def get_type_def split: option.splits if_splits)
qed

lemma printf_arg_grows:
  "printf_arg f T st = Inr st' \<Longrightarrow>
   spec_count st' = spec_count st \<and> struct_count st' = struct_count st \<and>
   stores st' = stores st"
  by (auto simp: printf_arg_def split: sum.splits)

lemma store_count_grows:
  "store_count T st = Inr st' \<Longrightarrow>
   spec_count st' = spec_count st \<and> struct_count st' = struct_count st \<and>
   (\<exists>ys. stores st' = stores st @ ys)"
  by (auto simp: store_count_def split: sum.splits cval.splits option.splits)

lemma vprint_field_grows:
  "vprint_field e st = Inr st' \<Longrightarrow>
   spec_count st' = spec_count st \<and> struct_count st' = struct_count st \<and>
   (\<exists>ys. stores st' = stores st @ ys)"
  unfolding vprint_field_def
  by (cases "type e") (auto dest!: printf_arg_grows store_count_grows)

lemma vprint_display_grows:
  "vprint_display st = Inr st' \<Longrightarrow>
   spec_count st' = spec_count st \<and> struct_count st \<le> struct_count st' \<and>
   stores st' = stores st"
  by (auto simp: vprint_display_def Let_def
      split: sum.splits option.splits prod.splits if_splits)

lemma vprint_body_grows:
  assumes "vprint_body format specs st = Inr st'"
  shows "spec_count st \<le> spec_count st' \<and> struct_count st \<le> struct_count st' \<and>
         (\<exists>ys. stores st' = stores st @ ys)"
proof (cases "peek format (pos st) = Some CHR ''%'' \<and> spec_idx st < length specs
              \<and> (\<exists>cn. peek format (pos st + 1) = Some cn \<and> cn \<noteq> CHR ''%'')")
  case True
  with assms obtain st0 where f: "vprint_field (specs ! spec_idx st) st = Inr st0"
    and s: "spec_count st' = spec_count st0 + 1" "struct_count st' = struct_count st0"
      "stores st' = stores st0"
    by (auto simp: vprint_body_def split: sum.splits)
  from vprint_field_grows [OF f] s show ?thesis by auto
next
  case False
  with assms show ?thesis
    by (auto simp: vprint_body_def split: option.splits if_splits
        dest: vprint_display_grows)
qed

lemma vprint_loop_grows:
  "vprint_loop format specs st = Inr fin \<Longrightarrow>
   spec_count st \<le> spec_count fin \<and> struct_count st \<le> struct_count fin \<and>
   (\<exists>ys. stores fin = stores st @ ys)"
proof (induction format specs st rule: vprint_loop.induct)
  case (1 format specs st)
  note u = vprint_loop.simps [of format specs st]
  show ?case
  proof (cases "peek format (pos st)")
    case None
    with "1.prems" show ?thesis by (simp add: u)
  next
    case (Some c)
    show ?thesis
    proof (cases "c = NUL")
      case True
      with Some "1.prems" show ?thesis by (simp add: u)
    next
      case False
      from Some False "1.prems" obtain st' where
        b: "vprint_body format specs st = Inr st'"
        and r: "vprint_loop format specs st' = Inr fin"
        by (auto simp: u split: sum.splits)
      from "1.IH" [OF Some False b r] vprint_body_grows [OF b] show ?thesis
        by auto
    qed
  qed
qed

text \<open>
  C5, as amended. Let the scanner's marker list be \<open>specs\<close>, and let the walk of
  \<^verbatim>\<open>display_vprint\<close> stand, after some iterations, at a marker where the current entry \<open>e\<close>
  has a write-count tag and the cursor holds a non-null pointer of the tag's type. Then \<open>e\<close>
  is the scanner's entry for a marker of the template with the conversion letter \<open>n\<close> (not
  necessarily the marker the walk stands at); the driver consumes that one pointer, leaves
  the sink as it is, assigns through the pointer the running count
  \<^verbatim>\<open>spec_count + struct_count\<close> converted to the pointee type (wrapped to 8 bits for
  \<^verbatim>\<open>signed char\<close> and to 16 bits for \<^verbatim>\<open>short\<close>), moves by the length of the substring of \<open>e\<close>
  and counts the entry; \<^verbatim>\<open>display_vprint\<close> returns what the rest of the walk yields from
  there, so the value it returns counts the entry and its final stores contain the
  assignment.
\<close>

theorem write_count_entry:
  assumes "find_format_specifiers (Some format) = Inr specs"
    and "vprint_steps n format specs (init_state as) = Inr st"
    and "peek format (pos st) = Some CHR ''%''"
    and "peek format (pos st + 1) = Some cn" and "cn \<noteq> CHR ''%''"
    and "spec_idx st < length specs" and "specs ! spec_idx st = e"
    and "write_count_pointee (type e) = Some T"
    and "args st = Arg (C_ptr T) (VPtr (Some a)) # rest"
  shows "(\<exists>start q. scan_marker format start = Inr (q, Some e) \<and>
                    peek format (q - 1) = Some CHR ''n'') \<and>
         vprint_body format specs st = Inr (count_field T a rest (length (substr e)) st) \<and>
         args (count_field T a rest (length (substr e)) st) = rest \<and>
         sink (count_field T a rest (length (substr e)) st) = sink st \<and>
         display_vprint (Some format) as =
           (case vprint_loop format specs (count_field T a rest (length (substr e)) st) of
              Inl f \<Rightarrow> Inl f
            | Inr fin \<Rightarrow> Inr (spec_count fin + struct_count fin, fin)) \<and>
         (\<forall>r fin. display_vprint (Some format) as = Inr (r, fin) \<longrightarrow>
            spec_count st + struct_count st + 1 \<le> r \<and>
            (\<exists>ys. stores fin =
               stores st @ [(T, a, assigned_int T (spec_count st + struct_count st))] @ ys))"
proof -
  let ?st = "count_field T a rest (length (substr e)) st"
  from assms(1) have sl: "scan_loop format 0 [] = Inr specs"
    by (simp add: find_format_specifiers_def)
  from assms(6,7) have "e \<in> set specs" by auto
  from scan_loop_entries [OF sl this] obtain start q where
    m: "scan_marker format start = Inr (q, Some e)" by auto
  from scan_marker_write_count [OF m assms(8)]
  have n: "peek format (q - 1) = Some CHR ''n''" .
  from assms(7-9)
  have "vprint_field (specs ! spec_idx st) st =
          Inr (st\<lparr>args := rest,
                  stores := stores st @
                    [(T, a, assigned_int T (spec_count st + struct_count st))]\<rparr>)"
    by (cases "type e") (simp_all add: vprint_field_def store_count_def)
  with assms(3-7) have b: "vprint_body format specs st = Inr ?st"
    by (simp add: vprint_body_def count_field_def)
  from assms(3) b have "vprint_loop format specs st = vprint_loop format specs ?st"
    by (subst vprint_loop.simps) (simp add: NUL_def)
  with vprint_steps_loop [OF assms(2)]
  have l: "vprint_loop format specs (init_state as) = vprint_loop format specs ?st"
    by simp
  with assms(1) have d: "display_vprint (Some format) as =
           (case vprint_loop format specs ?st of
              Inl f \<Rightarrow> Inl f
            | Inr fin \<Rightarrow> Inr (spec_count fin + struct_count fin, fin))"
    by (simp add: display_vprint_def)
  have g: "spec_count st + struct_count st + 1 \<le> r \<and>
            (\<exists>ys. stores fin =
               stores st @ [(T, a, assigned_int T (spec_count st + struct_count st))] @ ys)"
    if "display_vprint (Some format) as = Inr (r, fin)" for r fin
  proof -
    from that d have f: "vprint_loop format specs ?st = Inr fin"
      and r: "r = spec_count fin + struct_count fin"
      by (auto split: sum.splits)
    from vprint_loop_grows [OF f] r show ?thesis
      by (auto simp: count_field_def)
  qed
  from m n b d g show ?thesis
    by (auto simp: count_field_def)
qed

theorem write_count_entry_witness:
  "find_format_specifiers (Some ''%d{}%n'') =
     Inr [\<lparr>substr = ''%d'', type = TYPE_INT\<rparr>, \<lparr>substr = ''%n'', type = TYPE_POINTER_INT\<rparr>] \<and>
   vprint_steps (Suc (Suc 0)) ''%d{}%n''
     [\<lparr>substr = ''%d'', type = TYPE_INT\<rparr>, \<lparr>substr = ''%n'', type = TYPE_POINTER_INT\<rparr>]
     (init_state
        [Arg C_int (VInt 5),
         ArgDisplay (Some \<lparr>display_fn = Some (\<lambda>a. (''OK'', 2)), fdisplay_fn = None,
                           sndisplay_fn = None, self = Some 1\<rparr>),
         Arg (C_ptr C_int) (VPtr (Some 100))]) =
     Inr \<lparr>pos = 4, args = [Arg (C_ptr C_int) (VPtr (Some 100))], spec_idx = 1,
          spec_count = 1, struct_count = 1, sink = [Fmt ''%d'' (VInt 5), Txt ''OK''],
          stores = []\<rparr> \<and>
   vprint_body ''%d{}%n''
     [\<lparr>substr = ''%d'', type = TYPE_INT\<rparr>, \<lparr>substr = ''%n'', type = TYPE_POINTER_INT\<rparr>]
     \<lparr>pos = 4, args = [Arg (C_ptr C_int) (VPtr (Some 100))], spec_idx = 1, spec_count = 1,
      struct_count = 1, sink = [Fmt ''%d'' (VInt 5), Txt ''OK''], stores = []\<rparr> =
     Inr \<lparr>pos = 6, args = [], spec_idx = 2, spec_count = 2, struct_count = 1,
          sink = [Fmt ''%d'' (VInt 5), Txt ''OK''], stores = [(C_int, 100, 2)]\<rparr> \<and>
   display_vprint (Some ''%d{}%n'')
     [Arg C_int (VInt 5),
      ArgDisplay (Some \<lparr>display_fn = Some (\<lambda>a. (''OK'', 2)), fdisplay_fn = None,
                        sndisplay_fn = None, self = Some 1\<rparr>),
      Arg (C_ptr C_int) (VPtr (Some 100))] =
     Inr (3, \<lparr>pos = 6, args = [], spec_idx = 2, spec_count = 2, struct_count = 1,
              sink = [Fmt ''%d'' (VInt 5), Txt ''OK''], stores = [(C_int, 100, 2)]\<rparr>)"
proof -
  have s: "find_format_specifiers (Some ''%d{}%n'') =
     Inr [\<lparr>substr = ''%d'', type = TYPE_INT\<rparr>, \<lparr>substr = ''%n'', type = TYPE_POINTER_INT\<rparr>]"
    by (simp add: scan_eval)
  have w: "vprint_steps (Suc (Suc 0)) ''%d{}%n''
     [\<lparr>substr = ''%d'', type = TYPE_INT\<rparr>, \<lparr>substr = ''%n'', type = TYPE_POINTER_INT\<rparr>]
     (init_state
        [Arg C_int (VInt 5),
         ArgDisplay (Some \<lparr>display_fn = Some (\<lambda>a. (''OK'', 2)), fdisplay_fn = None,
                           sndisplay_fn = None, self = Some 1\<rparr>),
         Arg (C_ptr C_int) (VPtr (Some 100))]) =
     Inr \<lparr>pos = 4, args = [Arg (C_ptr C_int) (VPtr (Some 100))], spec_idx = 1,
          spec_count = 1, struct_count = 1, sink = [Fmt ''%d'' (VInt 5), Txt ''OK''],
          stores = []\<rparr>"
    by (simp add: vprint_eval peek_def NUL_def)
  from write_count_entry [OF s w, where cn = "CHR ''n''" and T = C_int and a = 100
      and rest = "[]" and e = "\<lparr>substr = ''%n'', type = TYPE_POINTER_INT\<rparr>"] s w
  show ?thesis
    by (simp add: peek_def count_field_def vprint_loop.simps NUL_def)
qed

section \<open>The opaque delimiter\<close>

lemma vprint_display_field:
  "args st = ArgDisplay d # rest \<Longrightarrow>
   vprint_display st = Inr (opaque_field (byte_rendering d) rest st)"
  by (simp add: vprint_display_def byte_rendering_def opaque_field_def Let_def
      split: option.splits prod.splits)

lemma vfprint_display_field:
  "args st = ArgDisplay d # rest \<Longrightarrow>
   vfprint_display file st = Inr (opaque_field (stream_rendering file d) rest st)"
  by (simp add: vfprint_display_def stream_rendering_def opaque_field_def Let_def
      split: option.splits prod.splits)

text \<open>
  C4. The claim: for every occurrence of \<open>{}\<close> in the template the driver consumes exactly
  one opaque display value; if the value is null, lacks the rendering function of the active
  sink, lacks its self-reference, or its rendering function returns \<open>-1\<close>, nothing is emitted
  for the field, the count is not incremented, the call does not fail and processing goes on.

  On the template \<open>%q{}%5d{}\<close> the dropped marker \<open>%q\<close> takes the entry of \<open>%5d\<close> and the
  position moves by 3, into the first \<open>{}\<close>: no display value is consumed for it, and its
  \<open>}\<close> is copied. At the second \<open>{}\<close> the rendering function writes \<open>x\<close> and returns \<open>-1\<close>:
  the field is not counted, but its text is in the output.
\<close>

theorem opaque_delimiter_counterexample:
  "find_format_specifiers (Some ''%q{}%5d{}'') = Inr [\<lparr>substr = ''%5d'', type = TYPE_INT\<rparr>] \<and>
   display_vprint (Some ''%q{}%5d{}'')
     [Arg C_int (VInt 7),
      ArgDisplay (Some \<lparr>display_fn = Some (\<lambda>a. (''x'', - 1)), fdisplay_fn = None,
                        sndisplay_fn = None, self = Some 1\<rparr>)] =
     Inr (1, \<lparr>pos = 9, args = [], spec_idx = 1, spec_count = 1, struct_count = 0,
              sink = [Fmt ''%5d'' (VInt 7), Chr CHR ''}'', Chr CHR ''%'', Chr CHR ''5'',
                      Chr CHR ''d'', Txt ''x''],
              stores = []\<rparr>)"
  by (simp add: scan_eval vprint_eval)

text \<open>
  C4, as amended. Each time the walk of a driver stands at the delimiter \<open>{}\<close>, the driver
  consumes exactly one opaque display value from the cursor and moves past the delimiter. If
  the value is null, lacks the rendering function of the active sink (\<^verbatim>\<open>display_fn\<close> for the
  byte sink, \<^verbatim>\<open>fdisplay_fn\<close> for the stream sink) or lacks its self-reference, nothing is
  emitted and the count is unchanged. Otherwise the rendering function is called; what it
  wrote is in the sink, the driver adds nothing, and the field is counted unless the function
  returned \<open>-1\<close>. In each case the call does not fail and the loop goes on from the new state.
\<close>

theorem opaque_delimiter_step:
  assumes "peek format (pos st) = Some CHR ''{''"
    and "peek format (pos st + 1) = Some CHR ''}''"
    and "args st = ArgDisplay d # rest"
  shows "vprint_body format specs st = Inr (opaque_field (byte_rendering d) rest st) \<and>
         vprint_loop format specs st =
           vprint_loop format specs (opaque_field (byte_rendering d) rest st) \<and>
         vfprint_body fp format specs st = Inr (opaque_field (stream_rendering fp d) rest st) \<and>
         vfprint_loop fp format specs st =
           vfprint_loop fp format specs (opaque_field (stream_rendering fp d) rest st)"
proof -
  have b: "vprint_body format specs st = Inr (opaque_field (byte_rendering d) rest st)"
    using assms by (simp add: vprint_body_def vprint_display_field)
  have fb: "vfprint_body fp format specs st =
              Inr (opaque_field (stream_rendering fp d) rest st)"
    using assms by (simp add: vfprint_body_def vfprint_display_field)
  have l: "vprint_loop format specs st =
             vprint_loop format specs (opaque_field (byte_rendering d) rest st)"
    by (subst vprint_loop.simps) (simp add: assms(1) b NUL_def)
  have fl: "vfprint_loop fp format specs st =
              vfprint_loop fp format specs (opaque_field (stream_rendering fp d) rest st)"
    by (subst vfprint_loop.simps) (simp add: assms(1) fb NUL_def)
  from b fb l fl show ?thesis by simp
qed

theorem opaque_delimiter_step_witness:
  "peek ''{}!'' 0 = Some CHR ''{'' \<and> peek ''{}!'' 1 = Some CHR ''}'' \<and>
   vprint_loop ''{}!'' []
     (init_state [ArgDisplay (Some \<lparr>display_fn = Some (\<lambda>a. (''x'', - 1)),
                                    fdisplay_fn = Some (\<lambda>a f. (''y'', - 1)),
                                    sndisplay_fn = None, self = Some 1\<rparr>)]) =
     Inr \<lparr>pos = 3, args = [], spec_idx = 0, spec_count = 0, struct_count = 0,
          sink = [Txt ''x'', Chr CHR ''!''], stores = []\<rparr> \<and>
   vfprint_loop 7 ''{}!'' []
     (init_state [ArgDisplay (Some \<lparr>display_fn = Some (\<lambda>a. (''x'', - 1)),
                                    fdisplay_fn = Some (\<lambda>a f. (''y'', - 1)),
                                    sndisplay_fn = None, self = Some 1\<rparr>)]) =
     Inr \<lparr>pos = 3, args = [], spec_idx = 0, spec_count = 0, struct_count = 0,
          sink = [Txt ''y'', Chr CHR ''!''], stores = []\<rparr>"
  using opaque_delimiter_step [where format = "''{}!''" and specs = "[]" and fp = 7
      and rest = "[]"
      and d = "Some \<lparr>display_fn = Some (\<lambda>a. (''x'', - 1)),
                     fdisplay_fn = Some (\<lambda>a f. (''y'', - 1)),
                     sndisplay_fn = None, self = Some 1\<rparr>"
      and st = "init_state [ArgDisplay (Some \<lparr>display_fn = Some (\<lambda>a. (''x'', - 1)),
                     fdisplay_fn = Some (\<lambda>a f. (''y'', - 1)),
                     sndisplay_fn = None, self = Some 1\<rparr>)]"]
  by (simp add: peek_def init_state_def opaque_field_def byte_rendering_def
      stream_rendering_def vprint_loop.simps vfprint_loop.simps vprint_body_def
      vfprint_body_def NUL_def)

section \<open>Markers with an indirect width or precision\<close>

lemma printf_arg_effect:
  "printf_arg f T st = Inr st' \<Longrightarrow>
   \<exists>v. args st = Arg T v # args st' \<and> sink st' = sink st @ [Fmt f v]"
  by (cases "(T, args st)" rule: va_arg.cases) (auto simp: printf_arg_def split: if_splits)

lemma store_count_effect:
  "store_count T st = Inr st' \<Longrightarrow>
   \<exists>a. args st = Arg (C_ptr T) (VPtr (Some a)) # args st' \<and> sink st' = sink st"
  by (cases "(C_ptr T, args st)" rule: va_arg.cases)
     (auto simp: store_count_def split: if_splits cval.splits option.splits)

lemma scan_marker_substr:
  assumes "scan_marker s start = Inr (q, Some e)"
  shows "substr e = cstr (take (q - start) (drop start (s @ [NUL])))"
proof -
  from assms obtain p1 where 1: "skip_flags s (start + 1) = Inr p1"
    by (auto simp: scan_marker_def split: sum.splits)
  from assms 1 obtain p2 where 2: "scan_width s p1 = Inr p2"
    by (auto simp: scan_marker_def split: sum.splits)
  from assms 1 2 obtain p3 where 3: "scan_precision s p2 = Inr p3"
    by (auto simp: scan_marker_def split: sum.splits)
  from assms 1 2 3 obtain len p4 where 4: "scan_length s p3 = Inr (len, p4)"
    by (auto simp: scan_marker_def split: sum.splits)
  from assms 1 2 3 4 show ?thesis
    by (auto simp: scan_marker_def Let_def split: option.splits if_splits)
qed

lemma cstr_slice:
  assumes "NUL \<notin> set s"
  shows "cstr (take n (drop k (s @ [NUL]))) = take n (drop k s)"
proof -
  have a: "\<forall>x\<in>set (take n (drop k s)). x \<noteq> NUL"
    using assms by (auto dest!: in_set_takeD in_set_dropD)
  have b: "takeWhile (\<lambda>c. c \<noteq> NUL) (take m (drop j [NUL])) = []" for m j
    by (cases m; cases j) simp_all
  show ?thesis
    using a by (simp add: cstr_def takeWhile_append b)
qed

text \<open>
  C8. The claim: for every marker containing \<open>*\<close> the driver consumes exactly one argument
  and passes the marker's substring, still containing \<open>*\<close>, to the native formatter with that
  single argument.

  The template \<open>%*n%*%\<close> has two such markers. For \<open>%*n\<close> the driver consumes a pointer and
  stores the count; for \<open>%*%\<close> it consumes nothing; the native formatter is called for neither.
\<close>

theorem star_marker_counterexample:
  "find_format_specifiers (Some ''%*n%*%'') =
     Inr [\<lparr>substr = ''%*n'', type = TYPE_POINTER_INT\<rparr>, \<lparr>substr = ''%*%'', type = TYPE_NONE\<rparr>] \<and>
   display_vprint (Some ''%*n%*%'') [Arg (C_ptr C_int) (VPtr (Some 100))] =
     Inr (2, \<lparr>pos = 6, args = [], spec_idx = 2, spec_count = 2, struct_count = 0,
              sink = [], stores = [(C_int, 100, 0)]\<rparr>)"
  by (simp add: scan_eval vprint_eval)

text \<open>
  C8, as amended. The entry \<open>e\<close> that the scanner makes of a marker containing \<open>*\<close> keeps the
  \<open>*\<close> in its substring. When the driver uses \<open>e\<close>, it uses the cursor as the tag of \<open>e\<close> says
  and never consumes a further integer for the width or precision. Where the step does not
  fault: for a write-count tag it consumes exactly one pointer and calls no formatter; for
  the no-argument tag it consumes nothing and calls no formatter; for every other tag it
  consumes exactly one argument and passes it, alone, to the native formatter with the
  substring of \<open>e\<close>.
\<close>

theorem star_marker_argument_use:
  assumes "NUL \<notin> set format"
    and "scan_marker format start = Inr (q, Some e)"
    and "CHR ''*'' \<in> set (take (q - start) (drop start format))"
    and "peek format (pos st) = Some CHR ''%''"
    and "peek format (pos st + 1) = Some cn" and "cn \<noteq> CHR ''%''"
    and "spec_idx st < length specs" and "specs ! spec_idx st = e"
    and "vprint_body format specs st = Inr st'"
  shows "CHR ''*'' \<in> set (substr e) \<and>
         (case write_count_pointee (type e) of
            Some T \<Rightarrow>
              (\<exists>a. args st = Arg (C_ptr T) (VPtr (Some a)) # args st') \<and> sink st' = sink st
          | None \<Rightarrow>
              if type e = TYPE_NONE
              then args st' = args st \<and> sink st' = sink st
              else \<exists>T v. args st = Arg T v # args st' \<and>
                         sink st' = sink st @ [Fmt (substr e) v])"
proof -
  have "substr e = cstr (take (q - start) (drop start (format @ [NUL])))"
    using assms(2) by (rule scan_marker_substr)
  also have "\<dots> = take (q - start) (drop start format)"
    using assms(1) by (rule cstr_slice)
  finally have star: "CHR ''*'' \<in> set (substr e)"
    using assms(3) by simp
  from assms(4-9) obtain st0 where
    f: "vprint_field e st = Inr st0"
    and s: "args st' = args st0" "sink st' = sink st0"
    by (auto simp: vprint_body_def split: sum.splits)
  from f s have "case write_count_pointee (type e) of
            Some T \<Rightarrow>
              (\<exists>a. args st = Arg (C_ptr T) (VPtr (Some a)) # args st') \<and> sink st' = sink st
          | None \<Rightarrow>
              if type e = TYPE_NONE
              then args st' = args st \<and> sink st' = sink st
              else \<exists>T v. args st = Arg T v # args st' \<and>
                         sink st' = sink st @ [Fmt (substr e) v]"
    unfolding vprint_field_def
    by (cases "type e") (auto dest!: printf_arg_effect store_count_effect)
  with star show ?thesis by simp
qed

theorem star_marker_argument_use_witness:
  "NUL \<notin> set ''%*d'' \<and>
   scan_marker ''%*d'' 0 = Inr (3, Some \<lparr>substr = ''%*d'', type = TYPE_INT\<rparr>) \<and>
   vprint_body ''%*d'' [\<lparr>substr = ''%*d'', type = TYPE_INT\<rparr>]
      (init_state [Arg C_int (VInt 8), Arg C_int (VInt 42)]) =
     Inr \<lparr>pos = 3, args = [Arg C_int (VInt 42)], spec_idx = 1, spec_count = 1,
          struct_count = 0, sink = [Fmt ''%*d'' (VInt 8)], stores = []\<rparr> \<and>
   CHR ''*'' \<in> set ''%*d'' \<and>
   (\<exists>T v. [Arg C_int (VInt 8), Arg C_int (VInt 42)] = Arg T v # [Arg C_int (VInt 42)] \<and>
          [Fmt ''%*d'' (VInt 8)] = [] @ [Fmt ''%*d'' v])"
proof -
  have n: "NUL \<notin> set ''%*d''"
    by (simp add: NUL_def)
  have m: "scan_marker ''%*d'' 0 = Inr (3, Some \<lparr>substr = ''%*d'', type = TYPE_INT\<rparr>)"
    by (simp add: scan_eval)
  have b: "vprint_body ''%*d'' [\<lparr>substr = ''%*d'', type = TYPE_INT\<rparr>]
      (init_state [Arg C_int (VInt 8), Arg C_int (VInt 42)]) =
     Inr \<lparr>pos = 3, args = [Arg C_int (VInt 42)], spec_idx = 1, spec_count = 1,
          struct_count = 0, sink = [Fmt ''%*d'' (VInt 8)], stores = []\<rparr>"
    by (simp add: vprint_eval peek_def)
  from star_marker_argument_use [where cn = "CHR ''*''"
      and specs = "[\<lparr>substr = ''%*d'', type = TYPE_INT\<rparr>]", OF n m _ _ _ _ _ _ b]
  have "CHR ''*'' \<in> set ''%*d'' \<and>
    (\<exists>T v. [Arg C_int (VInt 8), Arg C_int (VInt 42)] = Arg T v # [Arg C_int (VInt 42)] \<and>
          [Fmt ''%*d'' (VInt 8)] = [] @ [Fmt ''%*d'' v])"
    by (simp add: peek_def init_state_def)
  with n m b show ?thesis by simp
qed

section \<open>The two drivers agree\<close>

lemma vfprint_field_eq: "vfprint_field fp spec st = vprint_field spec st"
  unfolding vfprint_field_def vprint_field_def fprintf_arg_def printf_arg_def
  by (rule refl)

lemma vfprint_display_eq:
  assumes "list_all (same_rendering fp) (args st)"
  shows "vfprint_display fp st = vprint_display st"
proof (cases "args st")
  case Nil
  then show ?thesis by (simp add: vfprint_display_def vprint_display_def)
next
  case (Cons x rest)
  show ?thesis
  proof (cases x)
    case (Arg T v)
    with Cons show ?thesis by (simp add: vfprint_display_def vprint_display_def)
  next
    case (ArgDisplay d)
    with Cons assms have "same_rendering fp (ArgDisplay d)" by simp
    then have "opaque_field (stream_rendering fp d) rest st =
               opaque_field (byte_rendering d) rest st"
      by (auto simp: same_rendering_def stream_rendering_def byte_rendering_def opaque_field_def
          split: option.splits prod.splits)
    with Cons ArgDisplay show ?thesis
      by (simp add: vfprint_display_field vprint_display_field)
  qed
qed

lemma vfprint_body_eq:
  assumes "list_all (same_rendering fp) (args st)"
  shows "vfprint_body fp format specs st = vprint_body format specs st"
proof -
  have d: "vfprint_display fp st = vprint_display st"
    using assms by (rule vfprint_display_eq)
  show ?thesis
    unfolding vfprint_body_def vprint_body_def vfprint_field_eq d by (rule refl)
qed

lemma vprint_field_args:
  "vprint_field spec st = Inr st' \<Longrightarrow> args st' = args st \<or> args st' = tl (args st)"
  unfolding vprint_field_def
  by (cases "type spec") (auto dest!: printf_arg_effect store_count_effect)

lemma vprint_display_args:
  "vprint_display st = Inr st' \<Longrightarrow> args st' = tl (args st)"
  by (cases "args st" rule: va_arg_display.cases)
     (auto simp: vprint_display_def Let_def split: option.splits prod.splits if_splits)

lemma vprint_body_args:
  assumes "vprint_body format specs st = Inr st'"
  shows "args st' = args st \<or> args st' = tl (args st)"
proof (cases "peek format (pos st) = Some CHR ''%'' \<and> spec_idx st < length specs
              \<and> (\<exists>cn. peek format (pos st + 1) = Some cn \<and> cn \<noteq> CHR ''%'')")
  case True
  with assms obtain st0 where "vprint_field (specs ! spec_idx st) st = Inr st0"
    and "args st' = args st0"
    by (auto simp: vprint_body_def split: sum.splits)
  with vprint_field_args [of "specs ! spec_idx st" st st0] show ?thesis by simp
next
  case False
  with assms show ?thesis
    by (auto simp: vprint_body_def split: option.splits if_splits
        dest: vprint_display_args)
qed

lemma list_all_tl: "list_all P xs \<Longrightarrow> list_all P (tl xs)"
  by (cases xs) auto

lemma vfprint_loop_eq:
  "list_all (same_rendering fp) (args st) \<Longrightarrow>
   vfprint_loop fp format specs st = vprint_loop format specs st"
proof (induction format specs st rule: vprint_loop.induct)
  case (1 format specs st)
  note b = vfprint_body_eq [OF "1.prems", of format specs]
  note unfold = vfprint_loop.simps [of fp format specs st] vprint_loop.simps [of format specs st]
  show ?case
  proof (cases "vprint_body format specs st")
    case (Inl e)
    with b show ?thesis
      by (simp add: unfold split: option.splits)
  next
    case (Inr st')
    from vprint_body_args [OF Inr] "1.prems"
    have a: "list_all (same_rendering fp) (args st')"
      by (auto dest: list_all_tl)
    show ?thesis
    proof (cases "peek format (pos st)")
      case None
      then show ?thesis by (simp add: unfold)
    next
      case (Some c)
      show ?thesis
      proof (cases "c = NUL")
        case True
        with Some show ?thesis by (simp add: unfold)
      next
        case False
        from "1.IH" [OF Some False Inr a] Some False Inr b show ?thesis
          by (simp add: unfold)
      qed
    qed
  qed
qed

text \<open>
  C10. For every template and every argument list in which each opaque display value has
  both \<^verbatim>\<open>display_fn\<close> and \<^verbatim>\<open>fdisplay_fn\<close>, writing the same text and agreeing on success or
  failure, \<^verbatim>\<open>display_vfprint\<close> on a non-null stream and \<^verbatim>\<open>display_vprint\<close> have the same
  outcome: the same sequence in their sinks, the same returned value, the same cursor and
  the same stores (or the same undefined behaviour).
\<close>

theorem display_vfprint_matches_display_vprint:
  assumes "list_all (same_rendering fp) as"
  shows "display_vfprint (Some fp) format as = display_vprint format as"
proof (cases format)
  case None
  then show ?thesis by (simp add: display_vfprint_def display_vprint_def)
next
  case (Some s)
  from assms have "list_all (same_rendering fp) (args (init_state as))"
    by (simp add: init_state_def)
  then have "vfprint_loop fp s specs (init_state as) = vprint_loop s specs (init_state as)"
    for specs by (rule vfprint_loop_eq)
  with Some show ?thesis
    by (simp add: display_vfprint_def display_vprint_def split: sum.splits)
qed

theorem display_vfprint_matches_display_vprint_witness:
  "list_all (same_rendering 7)
     [Arg C_int (VInt 5),
      ArgDisplay (Some \<lparr>display_fn = Some (\<lambda>a. (''OK'', 2)),
                        fdisplay_fn = Some (\<lambda>a f. (''OK'', 4)),
                        sndisplay_fn = None, self = Some 1\<rparr>)] \<and>
   display_vfprint (Some 7) (Some ''%d {}'')
     [Arg C_int (VInt 5),
      ArgDisplay (Some \<lparr>display_fn = Some (\<lambda>a. (''OK'', 2)),
                        fdisplay_fn = Some (\<lambda>a f. (''OK'', 4)),
                        sndisplay_fn = None, self = Some 1\<rparr>)] =
   display_vprint (Some ''%d {}'')
     [Arg C_int (VInt 5),
      ArgDisplay (Some \<lparr>display_fn = Some (\<lambda>a. (''OK'', 2)),
                        fdisplay_fn = Some (\<lambda>a f. (''OK'', 4)),
                        sndisplay_fn = None, self = Some 1\<rparr>)]"
  using display_vfprint_matches_display_vprint [where fp = 7 and format = "Some ''%d {}''"
      and as = "[Arg C_int (VInt 5),
      ArgDisplay (Some \<lparr>display_fn = Some (\<lambda>a. (''OK'', 2)),
                        fdisplay_fn = Some (\<lambda>a f. (''OK'', 4)),
                        sndisplay_fn = None, self = Some 1\<rparr>)]"]
  by (simp add: same_rendering_def)


end
